theory Spec2Isabelle
  imports Main "HOL-Library.AList"
begin

section \<open>Strings\<close>

text \<open>
  JavaScript strings are modelled as \<^typ>\<open>string\<close>. The three string operations the
  script relies on are written out: \<^verbatim>\<open>s.startsWith(pat)\<close>, \<^verbatim>\<open>s.includes(pat)\<close>
  (which is also what the attribute selector \<^verbatim>\<open>[attr*="pat"]\<close> tests) and
  \<^verbatim>\<open>s.replace(pat, rep)\<close> with a string pattern, which replaces the first
  occurrence only. The replacement strings of the script contain no \<^verbatim>\<open>$\<close>, so the
  replacement is taken literally.
\<close>

fun startsWith :: "string \<Rightarrow> string \<Rightarrow> bool" where
  "startsWith s [] = True"
| "startsWith [] (p # ps) = False"
| "startsWith (c # cs) (p # ps) = (c = p \<and> startsWith cs ps)"

fun str_includes :: "string \<Rightarrow> string \<Rightarrow> bool" where
  "str_includes [] pat = (pat = [])"
| "str_includes (c # cs) pat = (startsWith (c # cs) pat \<or> str_includes cs pat)"

fun str_replace :: "string \<Rightarrow> string \<Rightarrow> string \<Rightarrow> string" where
  "str_replace [] pat rep = (if pat = [] then rep else [])"
| "str_replace (c # cs) pat rep =
     (if startsWith (c # cs) pat then rep @ drop (length pat) (c # cs)
      else c # str_replace cs pat rep)"

fun join_with :: "string \<Rightarrow> string list \<Rightarrow> string" where
  "join_with sep [] = []"
| "join_with sep [x] = x"
| "join_with sep (x # y # ys) = x @ sep @ join_with sep (y # ys)"

section \<open>Inline style declarations\<close>

text \<open>
  The inline style of an element is its list of declarations, CSS property name and
  value, in the order of the \<^verbatim>\<open>style\<close> attribute. Script code names a property in
  camel case (\<^verbatim>\<open>fontSize\<close>); \<open>css_name\<close> gives the CSS name (\<^verbatim>\<open>font-size\<close>).
  Reading a property that is not declared gives the empty string, and assigning the
  empty string removes the declaration. Values are stored as written: every property
  is a slot of its own (shorthand expansion and value normalisation by the browser are
  not modelled).
\<close>

type_synonym declarations = "(string \<times> string) list"

definition upper_lower :: "(char \<times> char) list" where
  "upper_lower = zip ''ABCDEFGHIJKLMNOPQRSTUVWXYZ'' ''abcdefghijklmnopqrstuvwxyz''"

fun css_name :: "string \<Rightarrow> string" where
  "css_name [] = []"
| "css_name (c # cs) =
     (case map_of upper_lower c of
        Some l \<Rightarrow> CHR ''-'' # l # css_name cs
      | None \<Rightarrow> c # css_name cs)"

definition style_get :: "string \<Rightarrow> declarations \<Rightarrow> string" where
  "style_get prop st = (case map_of st (css_name prop) of None \<Rightarrow> [] | Some v \<Rightarrow> v)"

definition style_set :: "string \<Rightarrow> string \<Rightarrow> declarations \<Rightarrow> declarations" where
  "style_set prop v st =
     (if v = [] then AList.delete (css_name prop) st
      else AList.update (css_name prop) v st)"

text \<open>The text of the \<^verbatim>\<open>style\<close> attribute, as the attribute selectors see it.\<close>

definition style_text :: "declarations \<Rightarrow> string" where
  "style_text st = join_with '' '' (map (\<lambda>(p, v). p @ '': '' @ v @ '';'') st)"

section \<open>The document\<close>

text \<open>
  The five listeners the script registers on a pagination button. Every registration
  passes a fresh closure, so \<^verbatim>\<open>addEventListener\<close> never recognises a duplicate.
\<close>

datatype handler = ResetAllButtons | HoverOn | HoverOff | Pressed | Released

text \<open>
  An element carries what the script reads or writes: tag name, class list, the tag
  and class list of each of its ancestors (all that the descendant combinators of the
  selectors inspect; the script never changes them), the \<^verbatim>\<open>src\<close> property, the
  inline style, the values the style sheets and inheritance give it (\<open>cascaded\<close>),
  \<^verbatim>\<open>dataset.originalStyle\<close> and the registered listeners.
\<close>

record element =
  tag :: string
  classes :: "string list"
  ancestors :: "(string \<times> string list) list"
  src :: string
  style :: declarations
  cascaded :: declarations
  originalStyle :: "string option"
  listeners :: "(string \<times> handler) list"

text \<open>Every write the script performs is recorded, in order, with the index of its element.\<close>

datatype mutation =
    SrcWrite nat string
  | StyleWrite nat string string
  | DatasetWrite nat string
  | ListenerAdded nat string handler

text \<open>
  The document: the class list of \<^verbatim>\<open>document.body\<close>, the elements in document
  order (the order of \<^verbatim>\<open>querySelectorAll\<close>), and the record of writes.
\<close>

record dom =
  body_classes :: "string list"
  elems :: "element list"
  mutations :: "mutation list"

datatype js_error = SyntaxError

text \<open>An invocation either returns or throws; both leave a document behind.\<close>

datatype outcome = Returned dom | Thrown js_error dom

fun state_of :: "outcome \<Rightarrow> dom" where
  "state_of (Returned d) = d"
| "state_of (Thrown e d) = d"

fun run_steps :: "(dom \<Rightarrow> outcome) list \<Rightarrow> dom \<Rightarrow> outcome" where
  "run_steps [] d = Returned d"
| "run_steps (s # ss) d =
     (case s d of Returned d' \<Rightarrow> run_steps ss d' | Thrown e d' \<Rightarrow> Thrown e d')"

subsection \<open>The platform's JSON object\<close>

text \<open>
  \<^verbatim>\<open>JSON.stringify\<close> and \<^verbatim>\<open>JSON.parse\<close> belong to the platform, not to the script, and
  are a parameter of the model. An object with string-valued properties is the list of
  its properties in insertion order. \<open>JSON_parse\<close> gives \<open>None\<close> where
  \<^verbatim>\<open>JSON.parse\<close> throws a SyntaxError, and otherwise the own enumerable properties of
  the decoded value, which is what \<^verbatim>\<open>Object.assign\<close> copies.
\<close>

type_synonym js_object = "(string \<times> string) list"

record json =
  JSON_stringify :: "js_object \<Rightarrow> string"
  JSON_parse :: "string \<Rightarrow> js_object option"

subsection \<open>Reads and writes\<close>

definition classList_contains :: "string list \<Rightarrow> string \<Rightarrow> bool" where
  "classList_contains cl tok = (tok \<in> set cl)"

definition class_attr :: "element \<Rightarrow> string" where
  "class_attr e = join_with '' '' (classes e)"

text \<open>
  \<^verbatim>\<open>getComputedStyle(e)[prop]\<close>: the inline declaration when there is one, the cascaded
  value otherwise.
\<close>

definition getComputedStyle :: "element \<Rightarrow> string \<Rightarrow> string" where
  "getComputedStyle e prop =
     (case map_of (style e) (css_name prop) of
        Some v \<Rightarrow> v
      | None \<Rightarrow> (case map_of (cascaded e) (css_name prop) of Some v \<Rightarrow> v | None \<Rightarrow> []))"

definition modify :: "nat \<Rightarrow> (element \<Rightarrow> element) \<Rightarrow> mutation \<Rightarrow> dom \<Rightarrow> dom" where
  "modify i g m d =
     d\<lparr>elems := (elems d)[i := g (elems d ! i)], mutations := mutations d @ [m]\<rparr>"

definition set_src :: "nat \<Rightarrow> string \<Rightarrow> dom \<Rightarrow> dom" where
  "set_src i v = modify i (\<lambda>e. e\<lparr>src := v\<rparr>) (SrcWrite i v)"

definition set_style :: "nat \<Rightarrow> string \<Rightarrow> string \<Rightarrow> dom \<Rightarrow> dom" where
  "set_style i prop v = modify i (\<lambda>e. e\<lparr>style := style_set prop v (style e)\<rparr>) (StyleWrite i prop v)"

definition set_originalStyle :: "nat \<Rightarrow> string \<Rightarrow> dom \<Rightarrow> dom" where
  "set_originalStyle i v = modify i (\<lambda>e. e\<lparr>originalStyle := Some v\<rparr>) (DatasetWrite i v)"

definition addEventListener :: "nat \<Rightarrow> string \<Rightarrow> handler \<Rightarrow> dom \<Rightarrow> dom" where
  "addEventListener i ev h =
     modify i (\<lambda>e. e\<lparr>listeners := listeners e @ [(ev, h)]\<rparr>) (ListenerAdded i ev h)"

text \<open>\<^verbatim>\<open>Object.assign(elem.style, obj)\<close>: one style assignment per property, in order.\<close>

fun Object_assign_style :: "nat \<Rightarrow> js_object \<Rightarrow> dom \<Rightarrow> dom" where
  "Object_assign_style i [] d = d"
| "Object_assign_style i ((k, v) # kvs) d = Object_assign_style i kvs (set_style i k v d)"

subsection \<open>Selectors\<close>

definition has_ancestor :: "((string \<times> string list) \<Rightarrow> bool) \<Rightarrow> element \<Rightarrow> bool" where
  "has_ancestor P e = (\<exists>a \<in> set (ancestors e). P a)"

definition has_class :: "string \<Rightarrow> element \<Rightarrow> bool" where
  "has_class c e = classList_contains (classes e) c"

text \<open>\<^verbatim>\<open>img\<close>\<close>
definition sel_img :: "element \<Rightarrow> bool" where
  "sel_img e = (tag e = ''img'')"

text \<open>\<^verbatim>\<open>svg[style*="background"]\<close>\<close>
definition sel_svg_background :: "element \<Rightarrow> bool" where
  "sel_svg_background e = (tag e = ''svg'' \<and> str_includes (style_text (style e)) ''background'')"

text \<open>\<^verbatim>\<open>rect[style*="fill"]\<close>\<close>
definition sel_rect_fill :: "element \<Rightarrow> bool" where
  "sel_rect_fill e = (tag e = ''rect'' \<and> str_includes (style_text (style e)) ''fill'')"

text \<open>\<^verbatim>\<open>text[class*="legendtext"], svg text, svg tspan\<close>\<close>
definition sel_text :: "element \<Rightarrow> bool" where
  "sel_text e =
     ((tag e = ''text'' \<and> str_includes (class_attr e) ''legendtext'')
      \<or> (tag e = ''text'' \<and> has_ancestor (\<lambda>a. fst a = ''svg'') e)
      \<or> (tag e = ''tspan'' \<and> has_ancestor (\<lambda>a. fst a = ''svg'') e))"

text \<open>\<^verbatim>\<open>.gt_table_body, .gt_heading, .gt_sourcenotes, .gt_footnotes\<close>\<close>
definition sel_gt :: "element \<Rightarrow> bool" where
  "sel_gt e =
     (has_class ''gt_table_body'' e \<or> has_class ''gt_heading'' e
      \<or> has_class ''gt_sourcenotes'' e \<or> has_class ''gt_footnotes'' e)"

text \<open>\<^verbatim>\<open>.reactable\<close>\<close>
definition sel_reactable :: "element \<Rightarrow> bool" where
  "sel_reactable e = has_class ''reactable'' e"

text \<open>\<^verbatim>\<open>.rt-tbody .rt-tr, .rt-thead .rt-tr, .rt-pagination\<close>\<close>
definition sel_rt_rows :: "element \<Rightarrow> bool" where
  "sel_rt_rows e =
     ((has_class ''rt-tr'' e \<and> has_ancestor (\<lambda>a. ''rt-tbody'' \<in> set (snd a)) e)
      \<or> (has_class ''rt-tr'' e \<and> has_ancestor (\<lambda>a. ''rt-thead'' \<in> set (snd a)) e)
      \<or> has_class ''rt-pagination'' e)"

text \<open>\<^verbatim>\<open>.rt-search\<close>\<close>
definition sel_rt_search :: "element \<Rightarrow> bool" where
  "sel_rt_search e = has_class ''rt-search'' e"

text \<open>\<^verbatim>\<open>.rt-pagination button\<close>\<close>
definition sel_rt_pagination_button :: "element \<Rightarrow> bool" where
  "sel_rt_pagination_button e =
     (tag e = ''button'' \<and> has_ancestor (\<lambda>a. ''rt-pagination'' \<in> set (snd a)) e)"

text \<open>\<^verbatim>\<open>.rt-pagination-nav button\<close>\<close>
definition sel_rt_pagination_nav_button :: "element \<Rightarrow> bool" where
  "sel_rt_pagination_nav_button e =
     (tag e = ''button'' \<and> has_ancestor (\<lambda>a. ''rt-pagination-nav'' \<in> set (snd a)) e)"

text \<open>\<^verbatim>\<open>.rt-page-button-current\<close>\<close>
definition sel_rt_page_button_current :: "element \<Rightarrow> bool" where
  "sel_rt_page_button_current e = has_class ''rt-page-button-current'' e"

text \<open>\<^verbatim>\<open>.rt-sort-header\<close>\<close>
definition sel_rt_sort_header :: "element \<Rightarrow> bool" where
  "sel_rt_sort_header e = has_class ''rt-sort-header'' e"

text \<open>
  \<^verbatim>\<open>document.querySelectorAll(selector)\<close>: the indices of the matching elements, in
  document order. The list is static: it is computed once, before the callbacks run.
\<close>

definition querySelectorAll :: "(element \<Rightarrow> bool) \<Rightarrow> dom \<Rightarrow> nat list" where
  "querySelectorAll sel d = map fst (filter (\<lambda>(i, e). sel e) (enumerate 0 (elems d)))"

fun forEach :: "nat list \<Rightarrow> (nat \<Rightarrow> dom \<Rightarrow> outcome) \<Rightarrow> dom \<Rightarrow> outcome" where
  "forEach [] f d = Returned d"
| "forEach (i # is) f d =
     (case f i d of Returned d' \<Rightarrow> forEach is f d' | Thrown e d' \<Rightarrow> Thrown e d')"

text \<open>
  \<^verbatim>\<open>
  const updateElements = (selector, updateFunc) => {
    document.querySelectorAll(selector).forEach(updateFunc);
  };
  \<close>
\<close>

definition updateElements :: "(element \<Rightarrow> bool) \<Rightarrow> (nat \<Rightarrow> dom \<Rightarrow> outcome) \<Rightarrow> dom \<Rightarrow> outcome" where
  "updateElements sel updateFunc d = forEach (querySelectorAll sel d) updateFunc d"

section \<open>The sync routine\<close>

subsection \<open>Steps shared by both versions of the script\<close>

text \<open>
  \<^verbatim>\<open>
  updateElements("img", (img) => {
    const newSrc = img.src.replace(
      isLightMode ? ".dark" : ".light",
      isDarkMode ? ".dark" : ".light",
    );
    if (newSrc !== img.src) img.src = newSrc;
  });
  \<close>
\<close>

definition img_callback :: "bool \<Rightarrow> bool \<Rightarrow> nat \<Rightarrow> dom \<Rightarrow> outcome" where
  "img_callback isLightMode isDarkMode i d =
     (let newSrc = str_replace (src (elems d ! i))
                     (if isLightMode then ''.dark'' else ''.light'')
                     (if isDarkMode then ''.dark'' else ''.light'')
      in if newSrc \<noteq> src (elems d ! i) then Returned (set_src i newSrc d) else Returned d)"

text \<open>
  \<^verbatim>\<open>
  const updateStyle = (elem, prop, lightValue, darkValue) => {
    const currentValue = elem.style[prop];
    const newValue = isDarkMode ? darkValue : lightValue;
    if (currentValue !== newValue) elem.style[prop] = newValue;
  };
  \<close>
\<close>

definition updateStyle :: "bool \<Rightarrow> nat \<Rightarrow> string \<Rightarrow> string \<Rightarrow> string \<Rightarrow> dom \<Rightarrow> outcome" where
  "updateStyle isDarkMode i prop lightValue darkValue d =
     (let currentValue = style_get prop (style (elems d ! i));
          newValue = (if isDarkMode then darkValue else lightValue)
      in if currentValue \<noteq> newValue then Returned (set_style i prop newValue d) else Returned d)"

definition light_color :: string where
  "light_color = ''rgb(255, 241, 229)''"

definition dark_color :: string where
  "dark_color = ''rgb(34, 34, 34)''"

definition svg_callback :: "bool \<Rightarrow> nat \<Rightarrow> dom \<Rightarrow> outcome" where
  "svg_callback isDarkMode i = updateStyle isDarkMode i ''background'' light_color dark_color"

definition rect_callback :: "bool \<Rightarrow> nat \<Rightarrow> dom \<Rightarrow> outcome" where
  "rect_callback isDarkMode i = updateStyle isDarkMode i ''fill'' light_color dark_color"

text \<open>
  The object literal passed to \<^verbatim>\<open>JSON.stringify\<close>: six properties of the computed
  style, read when the snapshot is taken.
\<close>

definition snapshot :: "element \<Rightarrow> js_object" where
  "snapshot e =
     [(''fill'', getComputedStyle e ''fill''),
      (''color'', getComputedStyle e ''color''),
      (''fontSize'', getComputedStyle e ''fontSize''),
      (''fontWeight'', getComputedStyle e ''fontWeight''),
      (''fontFamily'', getComputedStyle e ''fontFamily''),
      (''textDecoration'', getComputedStyle e ''textDecoration'')]"

text \<open>\<^verbatim>\<open>!text.dataset.originalStyle\<close>: the property is absent or the empty string.\<close>

definition falsy :: "string option \<Rightarrow> bool" where
  "falsy v = (v = None \<or> v = Some [])"

text \<open>
  The callback of the text step. The two versions of the script differ in one constant,
  the colour written in dark mode, which is the parameter \<open>darkText\<close>.
  \<^verbatim>\<open>
  (text) => {
    if (!text.dataset.originalStyle) {
      const computedStyle = window.getComputedStyle(text);
      text.dataset.originalStyle = JSON.stringify({ fill: computedStyle.fill, ... });
    }
    const originalStyle = JSON.parse(text.dataset.originalStyle);
    if (isDarkMode) {
      text.style.fill = "white";
      text.style.color = "rgb(204,193,183)";     // 'white' in version 1.1.0
    } else {
      Object.assign(text.style, originalStyle);
    }
  }
  \<close>
\<close>

definition text_callback :: "json \<Rightarrow> string \<Rightarrow> bool \<Rightarrow> nat \<Rightarrow> dom \<Rightarrow> outcome" where
  "text_callback J darkText isDarkMode i d =
     (let d1 = (if falsy (originalStyle (elems d ! i))
                then set_originalStyle i (JSON_stringify J (snapshot (elems d ! i))) d
                else d)
      in case originalStyle (elems d1 ! i) of
           None \<Rightarrow> Thrown SyntaxError d1
         | Some cached \<Rightarrow>
             (case JSON_parse J cached of
                None \<Rightarrow> Thrown SyntaxError d1
              | Some obj \<Rightarrow>
                  if isDarkMode
                  then Returned (set_style i ''color'' darkText (set_style i ''fill'' ''white'' d1))
                  else Returned (Object_assign_style i obj d1)))"

text \<open>
  \<^verbatim>\<open>
  (table) => {
    if (isDarkMode) { table.style.color = "white"; } else { table.style.color = ""; }
  }
  \<close>
\<close>

definition gt_callback :: "bool \<Rightarrow> nat \<Rightarrow> dom \<Rightarrow> outcome" where
  "gt_callback isDarkMode i d =
     (if isDarkMode then Returned (set_style i ''color'' ''white'' d)
      else Returned (set_style i ''color'' [] d))"

subsection \<open>Version 1.1.0 (the basic variant)\<close>

definition basic_darkText :: string where
  "basic_darkText = ''white''"

definition basic_steps :: "json \<Rightarrow> bool \<Rightarrow> bool \<Rightarrow> (dom \<Rightarrow> outcome) list" where
  "basic_steps J isLightMode isDarkMode =
     [updateElements sel_img (img_callback isLightMode isDarkMode),
      updateElements sel_svg_background (svg_callback isDarkMode),
      updateElements sel_rect_fill (rect_callback isDarkMode),
      updateElements sel_text (text_callback J basic_darkText isDarkMode),
      updateElements sel_gt (gt_callback isDarkMode)]"

definition updateImageSrc_basic :: "json \<Rightarrow> dom \<Rightarrow> outcome" where
  "updateImageSrc_basic J d =
     (let isLightMode = classList_contains (body_classes d) ''quarto-light'';
          isDarkMode = classList_contains (body_classes d) ''quarto-dark''
      in if \<not> isLightMode \<and> \<not> isDarkMode then Returned d
         else run_steps (basic_steps J isLightMode isDarkMode) d)"

subsection \<open>Version 1.2.0 (the extended variant): reactable tables\<close>

text \<open>A sequence of unconditional writes to one element, in source order.\<close>

definition perform :: "(dom \<Rightarrow> dom) list \<Rightarrow> dom \<Rightarrow> dom" where
  "perform ws d = fold (\<lambda>w s. w s) ws d"

text \<open>
  \<^verbatim>\<open>(elem) => { updateStyle(elem, "color", "", isDarkMode ? "white" : ""); }\<close>
\<close>

definition rt_rows_callback :: "bool \<Rightarrow> nat \<Rightarrow> dom \<Rightarrow> outcome" where
  "rt_rows_callback isDarkMode i =
     updateStyle isDarkMode i ''color'' [] (if isDarkMode then ''white'' else [])"

definition rt_search_callback :: "bool \<Rightarrow> nat \<Rightarrow> dom \<Rightarrow> outcome" where
  "rt_search_callback isDarkMode i d =
     (if isDarkMode
      then Returned (perform
             [set_style i ''backgroundColor'' ''rgb(50, 50, 50)'',
              set_style i ''color'' ''white'',
              set_style i ''borderColor'' ''rgba(255, 255, 255, 0.2)''] d)
      else Returned (perform
             [set_style i ''backgroundColor'' [],
              set_style i ''color'' [],
              set_style i ''borderColor'' []] d))"

text \<open>
  The first registration block on \<^verbatim>\<open>.rt-pagination button\<close> (lines 104 to 140): a
  transition, then click, mouseenter and mouseleave listeners; nothing in light mode.
\<close>

definition rt_button_callback1 :: "bool \<Rightarrow> nat \<Rightarrow> dom \<Rightarrow> outcome" where
  "rt_button_callback1 isDarkMode i d =
     (if isDarkMode
      then Returned (perform
             [set_style i ''transition'' ''background-color 0.2s'',
              addEventListener i ''click'' ResetAllButtons,
              addEventListener i ''mouseenter'' HoverOn,
              addEventListener i ''mouseleave'' HoverOff] d)
      else Returned d)"

text \<open>
  The second block on the same selector (lines 143 to 175): the transition again, then
  mouseenter, mouseleave, mousedown and mouseup listeners; in light mode it clears the
  transition and removes no listener.
\<close>

definition rt_button_callback2 :: "bool \<Rightarrow> nat \<Rightarrow> dom \<Rightarrow> outcome" where
  "rt_button_callback2 isDarkMode i d =
     (if isDarkMode
      then Returned (perform
             [set_style i ''transition'' ''background-color 0.2s'',
              addEventListener i ''mouseenter'' HoverOn,
              addEventListener i ''mouseleave'' HoverOff,
              addEventListener i ''mousedown'' Pressed,
              addEventListener i ''mouseup'' Released] d)
      else Returned (set_style i ''transition'' [] d))"

definition rt_nav_callback :: "bool \<Rightarrow> nat \<Rightarrow> dom \<Rightarrow> outcome" where
  "rt_nav_callback isDarkMode i d =
     (if isDarkMode then Returned (set_style i ''color'' ''rgba(255, 255, 255, 0.7)'' d)
      else Returned (set_style i ''color'' [] d))"

definition rt_current_callback :: "bool \<Rightarrow> nat \<Rightarrow> dom \<Rightarrow> outcome" where
  "rt_current_callback isDarkMode i d =
     (if isDarkMode
      then Returned (perform
             [set_style i ''backgroundColor'' ''rgba(255, 255, 255, 0.2)'',
              set_style i ''color'' ''white''] d)
      else Returned (perform
             [set_style i ''backgroundColor'' [],
              set_style i ''color'' []] d))"

definition rt_sort_callback :: "bool \<Rightarrow> nat \<Rightarrow> dom \<Rightarrow> outcome" where
  "rt_sort_callback isDarkMode i d =
     (if isDarkMode then Returned (set_style i ''color'' ''white'' d)
      else Returned (set_style i ''color'' [] d))"

text \<open>
  The callback run for each \<^verbatim>\<open>.reactable\<close> element. It does not use its element:
  the seven inner queries go through \<^verbatim>\<open>document.querySelectorAll\<close> and cover the
  whole document.
\<close>

definition reactable_steps :: "bool \<Rightarrow> (dom \<Rightarrow> outcome) list" where
  "reactable_steps isDarkMode =
     [updateElements sel_rt_rows (rt_rows_callback isDarkMode),
      updateElements sel_rt_search (rt_search_callback isDarkMode),
      updateElements sel_rt_pagination_button (rt_button_callback1 isDarkMode),
      updateElements sel_rt_pagination_button (rt_button_callback2 isDarkMode),
      updateElements sel_rt_pagination_nav_button (rt_nav_callback isDarkMode),
      updateElements sel_rt_page_button_current (rt_current_callback isDarkMode),
      updateElements sel_rt_sort_header (rt_sort_callback isDarkMode)]"

definition reactable_callback :: "bool \<Rightarrow> nat \<Rightarrow> dom \<Rightarrow> outcome" where
  "reactable_callback isDarkMode table = run_steps (reactable_steps isDarkMode)"

definition extended_darkText :: string where
  "extended_darkText = ''rgb(204,193,183)''"

definition extended_steps :: "json \<Rightarrow> bool \<Rightarrow> bool \<Rightarrow> (dom \<Rightarrow> outcome) list" where
  "extended_steps J isLightMode isDarkMode =
     [updateElements sel_img (img_callback isLightMode isDarkMode),
      updateElements sel_svg_background (svg_callback isDarkMode),
      updateElements sel_rect_fill (rect_callback isDarkMode),
      updateElements sel_text (text_callback J extended_darkText isDarkMode),
      updateElements sel_gt (gt_callback isDarkMode),
      updateElements sel_reactable (reactable_callback isDarkMode)]"

definition updateImageSrc :: "json \<Rightarrow> dom \<Rightarrow> outcome" where
  "updateImageSrc J d =
     (let isLightMode = classList_contains (body_classes d) ''quarto-light'';
          isDarkMode = classList_contains (body_classes d) ''quarto-dark''
      in if \<not> isLightMode \<and> \<not> isDarkMode then Returned d
         else run_steps (extended_steps J isLightMode isDarkMode) d)"

subsection \<open>A JSON codec for flat objects\<close>

text \<open>
  An executable instance of the platform parameter, used to run the routine on
  concrete documents: objects with string-valued properties, written as
  \<^verbatim>\<open>{"k":"v",...}\<close> with quotes and backslashes escaped, and read back by a
  character-by-character scanner that rejects every other text.
\<close>

fun json_escape :: "string \<Rightarrow> string" where
  "json_escape [] = []"
| "json_escape (c # cs) =
     (if c = CHR 0x22 \<or> c = CHR 0x5C then CHR 0x5C # c # json_escape cs
      else c # json_escape cs)"

definition json_quote :: "string \<Rightarrow> string" where
  "json_quote s = CHR 0x22 # json_escape s @ [CHR 0x22]"

definition flat_stringify :: "js_object \<Rightarrow> string" where
  "flat_stringify obj =
     ''{'' @ join_with '','' (map (\<lambda>(k, v). json_quote k @ '':'' @ json_quote v) obj) @ ''}''"

datatype scan =
    Start
  | KeyOrClose
  | Key
  | InKey string
  | Colon string
  | Val string
  | InVal string string
  | CommaOrClose
  | Done

fun flat_scan :: "scan \<Rightarrow> js_object \<Rightarrow> string \<Rightarrow> js_object option" where
  "flat_scan Done acc [] = Some (rev acc)"
| "flat_scan st acc [] = None"
| "flat_scan Start acc (c # cs) = (if c = CHR ''{'' then flat_scan KeyOrClose acc cs else None)"
| "flat_scan KeyOrClose acc (c # cs) =
     (if c = CHR ''}'' then flat_scan Done acc cs
      else if c = CHR 0x22 then flat_scan (InKey []) acc cs else None)"
| "flat_scan Key acc (c # cs) = (if c = CHR 0x22 then flat_scan (InKey []) acc cs else None)"
| "flat_scan (InKey k) acc (c # cs) =
     (if c = CHR 0x22 then flat_scan (Colon (rev k)) acc cs
      else if c = CHR 0x5C
           then (case cs of [] \<Rightarrow> None | e # cs' \<Rightarrow> flat_scan (InKey (e # k)) acc cs')
      else flat_scan (InKey (c # k)) acc cs)"
| "flat_scan (Colon k) acc (c # cs) = (if c = CHR '':'' then flat_scan (Val k) acc cs else None)"
| "flat_scan (Val k) acc (c # cs) = (if c = CHR 0x22 then flat_scan (InVal k []) acc cs else None)"
| "flat_scan (InVal k v) acc (c # cs) =
     (if c = CHR 0x22 then flat_scan CommaOrClose ((k, rev v) # acc) cs
      else if c = CHR 0x5C
           then (case cs of [] \<Rightarrow> None | e # cs' \<Rightarrow> flat_scan (InVal k (e # v)) acc cs')
      else flat_scan (InVal k (c # v)) acc cs)"
| "flat_scan CommaOrClose acc (c # cs) =
     (if c = CHR '','' then flat_scan Key acc cs
      else if c = CHR ''}'' then flat_scan Done acc cs else None)"
| "flat_scan Done acc (c # cs) = None"

definition flat_parse :: "string \<Rightarrow> js_object option" where
  "flat_parse s = flat_scan Start [] s"

definition flat_json :: json where
  "flat_json = \<lparr>JSON_stringify = flat_stringify, JSON_parse = flat_parse\<rparr>"

section \<open>Notions used in the proofs\<close>

text \<open>A step keeps a property of the document, whether it returns or throws.\<close>

definition keeps :: "(dom \<Rightarrow> bool) \<Rightarrow> (dom \<Rightarrow> outcome) \<Rightarrow> bool" where
  "keeps P s = (\<forall>d. P d \<longrightarrow> P (state_of (s d)))"

definition total :: "(dom \<Rightarrow> outcome) \<Rightarrow> bool" where
  "total s = (\<forall>d. \<exists>d'. s d = Returned d')"

text \<open>
  A callback that returns acts on its own element as the function \<open>g\<close>; a step that
  returns maps \<open>G\<close> over the elements.
\<close>

definition acts :: "(nat \<Rightarrow> dom \<Rightarrow> outcome) \<Rightarrow> (element \<Rightarrow> element) \<Rightarrow> bool" where
  "acts f g = (\<forall>i d d'. i < length (elems d) \<longrightarrow> f i d = Returned d' \<longrightarrow>
     elems d' = (elems d)[i := g (elems d ! i)] \<and> body_classes d' = body_classes d)"

definition maps :: "(dom \<Rightarrow> outcome) \<Rightarrow> (element \<Rightarrow> element) \<Rightarrow> bool" where
  "maps s G = (\<forall>d d'. s d = Returned d' \<longrightarrow>
     elems d' = map G (elems d) \<and> body_classes d' = body_classes d)"

definition on :: "(element \<Rightarrow> bool) \<Rightarrow> (element \<Rightarrow> element) \<Rightarrow> element \<Rightarrow> element" where
  "on sel g e = (if sel e then g e else e)"

subsection \<open>What each callback does to its element\<close>

definition img_effect :: "bool \<Rightarrow> bool \<Rightarrow> element \<Rightarrow> element" where
  "img_effect isLightMode isDarkMode e =
     e\<lparr>src := str_replace (src e)
                (if isLightMode then ''.dark'' else ''.light'')
                (if isDarkMode then ''.dark'' else ''.light'')\<rparr>"

definition updateStyle_effect :: "bool \<Rightarrow> string \<Rightarrow> string \<Rightarrow> string \<Rightarrow> element \<Rightarrow> element" where
  "updateStyle_effect isDarkMode prop lightValue darkValue e =
     (let newValue = (if isDarkMode then darkValue else lightValue)
      in if style_get prop (style e) \<noteq> newValue
         then e\<lparr>style := style_set prop newValue (style e)\<rparr> else e)"

definition assign_all :: "js_object \<Rightarrow> declarations \<Rightarrow> declarations" where
  "assign_all obj st = fold (\<lambda>(k, v). style_set k v) obj st"

definition cache_effect :: "json \<Rightarrow> element \<Rightarrow> element" where
  "cache_effect J e =
     (if falsy (originalStyle e)
      then e\<lparr>originalStyle := Some (JSON_stringify J (snapshot e))\<rparr> else e)"

definition text_effect :: "json \<Rightarrow> string \<Rightarrow> bool \<Rightarrow> element \<Rightarrow> element" where
  "text_effect J darkText isDarkMode e =
     (let e1 = cache_effect J e
      in if isDarkMode
         then e1\<lparr>style := style_set ''color'' darkText (style_set ''fill'' ''white'' (style e1))\<rparr>
         else e1\<lparr>style := assign_all (the (JSON_parse J (the (originalStyle e1)))) (style e1)\<rparr>)"

text \<open>The cached snapshot of an element decodes, or a fresh one would.\<close>

definition decodable :: "json \<Rightarrow> element \<Rightarrow> bool" where
  "decodable J e =
     (case originalStyle (cache_effect J e) of
        None \<Rightarrow> False
      | Some cached \<Rightarrow> JSON_parse J cached \<noteq> None)"

definition gt_effect :: "bool \<Rightarrow> element \<Rightarrow> element" where
  "gt_effect isDarkMode e =
     e\<lparr>style := style_set ''color'' (if isDarkMode then ''white'' else []) (style e)\<rparr>"

definition rt_search_effect :: "bool \<Rightarrow> element \<Rightarrow> element" where
  "rt_search_effect isDarkMode e =
     (if isDarkMode
      then e\<lparr>style := style_set ''borderColor'' ''rgba(255, 255, 255, 0.2)''
                        (style_set ''color'' ''white''
                          (style_set ''backgroundColor'' ''rgb(50, 50, 50)'' (style e)))\<rparr>
      else e\<lparr>style := style_set ''borderColor'' []
                        (style_set ''color'' []
                          (style_set ''backgroundColor'' [] (style e)))\<rparr>)"

definition block1_listeners :: "(string \<times> handler) list" where
  "block1_listeners =
     [(''click'', ResetAllButtons), (''mouseenter'', HoverOn), (''mouseleave'', HoverOff)]"

definition block2_listeners :: "(string \<times> handler) list" where
  "block2_listeners =
     [(''mouseenter'', HoverOn), (''mouseleave'', HoverOff),
      (''mousedown'', Pressed), (''mouseup'', Released)]"

definition rt_button_effect1 :: "bool \<Rightarrow> element \<Rightarrow> element" where
  "rt_button_effect1 isDarkMode e =
     (if isDarkMode
      then e\<lparr>style := style_set ''transition'' ''background-color 0.2s'' (style e),
             listeners := listeners e @ block1_listeners\<rparr>
      else e)"

definition rt_button_effect2 :: "bool \<Rightarrow> element \<Rightarrow> element" where
  "rt_button_effect2 isDarkMode e =
     (if isDarkMode
      then e\<lparr>style := style_set ''transition'' ''background-color 0.2s'' (style e),
             listeners := listeners e @ block2_listeners\<rparr>
      else e\<lparr>style := style_set ''transition'' [] (style e)\<rparr>)"

definition rt_nav_effect :: "bool \<Rightarrow> element \<Rightarrow> element" where
  "rt_nav_effect isDarkMode e =
     e\<lparr>style := style_set ''color''
                  (if isDarkMode then ''rgba(255, 255, 255, 0.7)'' else []) (style e)\<rparr>"

definition rt_current_effect :: "bool \<Rightarrow> element \<Rightarrow> element" where
  "rt_current_effect isDarkMode e =
     (if isDarkMode
      then e\<lparr>style := style_set ''color'' ''white''
                        (style_set ''backgroundColor'' ''rgba(255, 255, 255, 0.2)'' (style e))\<rparr>
      else e\<lparr>style := style_set ''color'' [] (style_set ''backgroundColor'' [] (style e))\<rparr>)"

definition rt_sort_effect :: "bool \<Rightarrow> element \<Rightarrow> element" where
  "rt_sort_effect isDarkMode e =
     e\<lparr>style := style_set ''color'' (if isDarkMode then ''white'' else []) (style e)\<rparr>"

text \<open>One run of the reactable callback, and the steps before it, element by element.\<close>

definition reactable_effect :: "bool \<Rightarrow> element \<Rightarrow> element" where
  "reactable_effect isDarkMode =
     on sel_rt_sort_header (rt_sort_effect isDarkMode)
     \<circ> on sel_rt_page_button_current (rt_current_effect isDarkMode)
     \<circ> on sel_rt_pagination_nav_button (rt_nav_effect isDarkMode)
     \<circ> on sel_rt_pagination_button (rt_button_effect2 isDarkMode)
     \<circ> on sel_rt_pagination_button (rt_button_effect1 isDarkMode)
     \<circ> on sel_rt_search (rt_search_effect isDarkMode)
     \<circ> on sel_rt_rows (updateStyle_effect isDarkMode ''color'' []
                          (if isDarkMode then ''white'' else []))"

definition shared_effect :: "json \<Rightarrow> string \<Rightarrow> bool \<Rightarrow> bool \<Rightarrow> element \<Rightarrow> element" where
  "shared_effect J darkText isLightMode isDarkMode =
     on sel_gt (gt_effect isDarkMode)
     \<circ> on sel_text (text_effect J darkText isDarkMode)
     \<circ> on sel_rect_fill (updateStyle_effect isDarkMode ''fill'' light_color dark_color)
     \<circ> on sel_svg_background (updateStyle_effect isDarkMode ''background'' light_color dark_color)
     \<circ> on sel_img (img_effect isLightMode isDarkMode)"


definition extended_effect :: "json \<Rightarrow> bool \<Rightarrow> bool \<Rightarrow> nat \<Rightarrow> element \<Rightarrow> element" where
  "extended_effect J isLightMode isDarkMode k =
     (reactable_effect isDarkMode ^^ k)
     \<circ> shared_effect J extended_darkText isLightMode isDarkMode"

definition isLight :: "dom \<Rightarrow> bool" where
  "isLight d = classList_contains (body_classes d) ''quarto-light''"

definition isDark :: "dom \<Rightarrow> bool" where
  "isDark d = classList_contains (body_classes d) ''quarto-dark''"


subsection \<open>Properties kept by the steps\<close>

fun is_SrcWrite :: "mutation \<Rightarrow> bool" where
  "is_SrcWrite (SrcWrite i v) = True"
| "is_SrcWrite m = False"

text \<open>The sources are \<open>S\<close>, and no source has been written since the record was \<open>M\<close>.\<close>

definition src_kept :: "string list \<Rightarrow> mutation list \<Rightarrow> dom \<Rightarrow> bool" where
  "src_kept S M d =
     (map src (elems d) = S \<and> (\<exists>ms. mutations d = M @ ms \<and> filter is_SrcWrite ms = []))"

text \<open>The writes an invocation adds to the record.\<close>

definition new_mutations :: "dom \<Rightarrow> dom \<Rightarrow> mutation list" where
  "new_mutations d d' = drop (length (mutations d)) (mutations d')"

text \<open>Applying a function to the element at one index.\<close>

definition map_at :: "nat \<Rightarrow> ('a \<Rightarrow> 'a) \<Rightarrow> 'a list \<Rightarrow> 'a list" where
  "map_at i g xs = xs[i := g (xs ! i)]"

text \<open>The three steps before the text step, element by element.\<close>

definition pre_effect :: "bool \<Rightarrow> bool \<Rightarrow> element \<Rightarrow> element" where
  "pre_effect isLightMode isDarkMode =
     on sel_rect_fill (updateStyle_effect isDarkMode ''fill'' light_color dark_color)
     \<circ> on sel_svg_background (updateStyle_effect isDarkMode ''background'' light_color dark_color)
     \<circ> on sel_img (img_effect isLightMode isDarkMode)"

definition pre_steps :: "bool \<Rightarrow> bool \<Rightarrow> (dom \<Rightarrow> outcome) list" where
  "pre_steps isLightMode isDarkMode =
     [updateElements sel_img (img_callback isLightMode isDarkMode),
      updateElements sel_svg_background (svg_callback isDarkMode),
      updateElements sel_rect_fill (rect_callback isDarkMode)]"


text \<open>The first statement of the text callback: the snapshot, taken when none is cached.\<close>

definition cache_write :: "json \<Rightarrow> nat \<Rightarrow> dom \<Rightarrow> dom" where
  "cache_write J i d =
     (if falsy (originalStyle (elems d ! i))
      then set_originalStyle i (JSON_stringify J (snapshot (elems d ! i))) d
      else d)"


fun returns :: "outcome \<Rightarrow> bool" where
  "returns (Returned d) = True"
| "returns (Thrown e d) = False"

text \<open>Every element the text step will visit has a snapshot that decodes.\<close>

definition text_ok :: "json \<Rightarrow> dom \<Rightarrow> bool" where
  "text_ok J d = (\<forall>e \<in> set (elems d). sel_text e \<longrightarrow> decodable J e)"

text \<open>One member of a flat object, as the codec writes it.\<close>

definition member_text :: "string \<times> string \<Rightarrow> string" where
  "member_text m = json_quote (fst m) @ '':'' @ json_quote (snd m)"

text \<open>Successive invocations on the same page, as long as each returns.\<close>

fun invocations :: "json \<Rightarrow> nat \<Rightarrow> dom \<Rightarrow> outcome" where
  "invocations J 0 d = Returned d"
| "invocations J (Suc n) d =
     (case updateImageSrc J d of
        Returned d' \<Rightarrow> invocations J n d'
      | Thrown e d' \<Rightarrow> Thrown e d')"

text \<open>
  Element \<open>i\<close> still has the listeners \<open>L\<close>, followed by what has been added since;
  nothing has been added when the theme is not dark.
\<close>

definition listeners_kept :: "bool \<Rightarrow> nat \<Rightarrow> (string \<times> handler) list \<Rightarrow> dom \<Rightarrow> bool" where
  "listeners_kept isDarkMode i L d =
     (\<exists>ls. listeners (elems d ! i) = L @ ls \<and> (\<not> isDarkMode \<longrightarrow> ls = []))"

section \<open>Example documents\<close>

definition plain_element :: element where
  "plain_element =
     \<lparr>tag = ''div'', classes = [], ancestors = [(''body'', [])], src = [], style = [],
      cascaded = [], originalStyle = None, listeners = []\<rparr>"

text \<open>\<^verbatim>\<open><img src="chart.light.png">\<close>\<close>

definition chart_img :: element where
  "chart_img = plain_element\<lparr>tag := ''img'', src := ''chart.light.png''\<rparr>"

text \<open>A page whose body carries no theme class.\<close>

definition unthemed_page :: dom where
  "unthemed_page = \<lparr>body_classes = [''fullcontent''], elems = [chart_img], mutations = []\<rparr>"

text \<open>The scenario of the specification: a dark page with one chart image.\<close>

definition dark_chart_page :: dom where
  "dark_chart_page = \<lparr>body_classes = [''quarto-dark''], elems = [chart_img], mutations = []\<rparr>"

definition light_chart_page :: dom where
  "light_chart_page =
     \<lparr>body_classes = [''quarto-light''],
      elems = [chart_img\<lparr>src := ''chart.dark.png''\<rparr>], mutations = []\<rparr>"







text \<open>A reactable table with its pagination bar and one page button.\<close>

definition reactable_div :: element where
  "reactable_div = plain_element\<lparr>classes := [''reactable'', ''html-widget'']\<rparr>"

definition pagination_div :: element where
  "pagination_div =
     plain_element\<lparr>classes := [''rt-pagination''],
       ancestors := [(''div'', [''reactable'', ''html-widget'']), (''body'', [])]\<rparr>"

definition page_button :: element where
  "page_button =
     plain_element\<lparr>tag := ''button'', classes := [''rt-page-button''],
       ancestors := [(''div'', [''rt-pagination-nav'']), (''div'', [''rt-pagination'']),
                     (''div'', [''reactable'', ''html-widget'']), (''body'', [])]\<rparr>"

definition table_page :: "string list \<Rightarrow> dom" where
  "table_page body =
     \<lparr>body_classes = body, elems = [reactable_div, pagination_div, page_button],
      mutations = []\<rparr>"

section \<open>Lemmas\<close>

subsection \<open>Strings\<close>





lemma str_replace_absent: "\<not> str_includes s pat \<Longrightarrow> str_replace s pat rep = s"
  by (induction s) auto



lemma startsWith_app_Cons:
  "startsWith (xs @ ys) (p # ps) =
     (case xs of [] \<Rightarrow> startsWith ys (p # ps) | x # xs' \<Rightarrow> x = p \<and> startsWith (xs' @ ys) ps)"
  by (cases xs) auto

lemma startsWith_light:
  "startsWith (c # cs @ ''.light'' @ post) ''.light'' \<Longrightarrow> startsWith (c # cs) ''.light''"
  by (auto simp: startsWith_app_Cons split: list.splits)

lemma startsWith_dark:
  "startsWith (c # cs @ ''.dark'' @ post) ''.dark'' \<Longrightarrow> startsWith (c # cs) ''.dark''"
  by (auto simp: startsWith_app_Cons split: list.splits)

lemma str_replace_light:
  "\<not> str_includes pre ''.light'' \<Longrightarrow>
   str_replace (pre @ ''.light'' @ post) ''.light'' rep = pre @ rep @ post"
proof (induction pre)
  case Nil
  show ?case by simp
next
  case (Cons c cs)
  from Cons.prems have a: "\<not> startsWith (c # cs) ''.light''" and b: "\<not> str_includes cs ''.light''"
    by auto
  from a have n: "\<not> startsWith (c # cs @ ''.light'' @ post) ''.light''"
    using startsWith_light by blast
  have "str_replace (c # cs @ ''.light'' @ post) ''.light'' rep =
        c # str_replace (cs @ ''.light'' @ post) ''.light'' rep"
    by (simp only: str_replace.simps n if_False)
  moreover have "(c # cs) @ ''.light'' @ post = c # cs @ ''.light'' @ post"
    by simp
  ultimately show ?case unfolding Cons.IH [OF b] by simp
qed

lemma str_replace_dark:
  "\<not> str_includes pre ''.dark'' \<Longrightarrow>
   str_replace (pre @ ''.dark'' @ post) ''.dark'' rep = pre @ rep @ post"
proof (induction pre)
  case Nil
  show ?case by simp
next
  case (Cons c cs)
  from Cons.prems have a: "\<not> startsWith (c # cs) ''.dark''" and b: "\<not> str_includes cs ''.dark''"
    by auto
  from a have n: "\<not> startsWith (c # cs @ ''.dark'' @ post) ''.dark''"
    using startsWith_dark by blast
  have "str_replace (c # cs @ ''.dark'' @ post) ''.dark'' rep =
        c # str_replace (cs @ ''.dark'' @ post) ''.dark'' rep"
    by (simp only: str_replace.simps n if_False)
  moreover have "(c # cs) @ ''.dark'' @ post = c # cs @ ''.dark'' @ post"
    by simp
  ultimately show ?case unfolding Cons.IH [OF b] by simp
qed

subsection \<open>Styles\<close>

lemma css_name_literals [simp]:
  "css_name ''background'' = ''background''"
  "css_name ''fill'' = ''fill''"
  "css_name ''color'' = ''color''"
  "css_name ''fontSize'' = ''font-size''"
  "css_name ''fontWeight'' = ''font-weight''"
  "css_name ''fontFamily'' = ''font-family''"
  "css_name ''textDecoration'' = ''text-decoration''"
  "css_name ''backgroundColor'' = ''background-color''"
  "css_name ''borderColor'' = ''border-color''"
  "css_name ''transition'' = ''transition''"
  by (simp_all add: upper_lower_def)

declare css_name.simps [simp del]

lemma style_get_set:
  "style_get p (style_set q v st) = (if css_name p = css_name q then v else style_get p st)"
  by (simp add: style_get_def style_set_def AList.update_conv' AList.delete_conv')






subsection \<open>Writes\<close>

lemma modify_simps [simp]:
  "elems (modify i g m d) = (elems d)[i := g (elems d ! i)]"
  "body_classes (modify i g m d) = body_classes d"
  "mutations (modify i g m d) = mutations d @ [m]"
  by (simp_all add: modify_def)

lemma perform_simps [simp]:
  "perform [] d = d"
  "perform (w # ws) d = perform ws (w d)"
  by (simp_all add: perform_def)

lemma Object_assign_style_body [simp]:
  "body_classes (Object_assign_style i obj d) = body_classes d"
  by (induction obj arbitrary: d) (auto simp: set_style_def)

lemma Object_assign_style_length [simp]:
  "length (elems (Object_assign_style i obj d)) = length (elems d)"
  by (induction obj arbitrary: d) (auto simp: set_style_def)


subsection \<open>Sequencing and iteration\<close>

lemma keeps_run_steps: "(\<And>s. s \<in> set ss \<Longrightarrow> keeps P s) \<Longrightarrow> keeps P (run_steps ss)"
proof (induction ss)
  case Nil
  show ?case by (simp add: keeps_def)
next
  case (Cons s ss)
  have s: "keeps P s" and r: "keeps P (run_steps ss)" using Cons by auto
  show ?case unfolding keeps_def
  proof (intro allI impI)
    fix d assume "P d"
    then have "P (state_of (s d))" using s by (simp add: keeps_def)
    then show "P (state_of (run_steps (s # ss) d))"
      using r by (cases "s d") (auto simp: keeps_def)
  qed
qed

lemma forEach_invariant:
  "(\<And>i d. i \<in> set js \<Longrightarrow> P d \<Longrightarrow> P (state_of (f i d))) \<Longrightarrow> P d \<Longrightarrow> P (state_of (forEach js f d))"
proof (induction js arbitrary: d)
  case Nil
  then show ?case by simp
next
  case (Cons j js)
  have "P (state_of (f j d))" using Cons.prems by simp
  moreover have "P d' \<Longrightarrow> P (state_of (forEach js f d'))" for d'
    using Cons.IH Cons.prems(1) by simp
  ultimately show ?case by (cases "f j d") auto
qed

lemma in_querySelectorAll:
  "i \<in> set (querySelectorAll sel d) \<longleftrightarrow> i < length (elems d) \<and> sel (elems d ! i)"
  by (force simp: querySelectorAll_def in_set_enumerate_eq)

lemma distinct_querySelectorAll: "distinct (querySelectorAll sel d)"
  unfolding querySelectorAll_def
  by (rule distinct_map_filter) simp



text \<open>
  An invariant that fixes the number of elements is kept by a step when every
  callback keeps it at the indices the query can give.
\<close>

lemma keeps_updateElements:
  assumes "\<And>i. keeps P (f i)"
  shows "keeps P (updateElements sel f)"
  unfolding keeps_def updateElements_def
proof (intro allI impI)
  fix d assume "P d"
  then show "P (state_of (forEach (querySelectorAll sel d) f d))"
  proof (rule forEach_invariant [where P = P, rotated])
    fix i d' assume "P d'"
    then show "P (state_of (f i d'))" using assms by (simp add: keeps_def)
  qed
qed


subsection \<open>Steps as maps over the elements\<close>


lemma forEach_acts:
  assumes "acts f g" and "distinct js" and "\<forall>j \<in> set js. j < length (elems d)"
    and "forEach js f d = Returned d'"
  shows "length (elems d') = length (elems d) \<and> body_classes d' = body_classes d \<and>
         (\<forall>j < length (elems d). elems d' ! j = (if j \<in> set js then g (elems d ! j) else elems d ! j))"
  using assms(2-)
proof (induction js arbitrary: d)
  case Nil
  then show ?case by simp
next
  case (Cons i js)
  from Cons.prems(3) obtain d1 where d1: "f i d = Returned d1" and rest: "forEach js f d1 = Returned d'"
    by (cases "f i d") auto
  have i: "i < length (elems d)" using Cons.prems(2) by simp
  from assms(1) d1 i have e1: "elems d1 = (elems d)[i := g (elems d ! i)]"
    and b1: "body_classes d1 = body_classes d"
    unfolding acts_def by blast+
  have len1: "length (elems d1) = length (elems d)" using e1 by simp
  have dist: "distinct js" and notin: "i \<notin> set js" using Cons.prems(1) by simp_all
  have bound: "\<forall>j \<in> set js. j < length (elems d1)" using Cons.prems(2) len1 by simp
  note ih = Cons.IH [OF dist bound rest]
  have "elems d' ! j = (if j \<in> set (i # js) then g (elems d ! j) else elems d ! j)"
    if j: "j < length (elems d)" for j
  proof -
    have jj: "elems d' ! j = (if j \<in> set js then g (elems d1 ! j) else elems d1 ! j)"
      using ih j len1 by simp
    show ?thesis
    proof (cases "j = i")
      case True
      then have "elems d' ! j = elems d1 ! i" using jj notin by simp
      also have "\<dots> = g (elems d ! i)" using e1 i by simp
      finally show ?thesis using True by simp
    next
      case False
      then have "elems d1 ! j = elems d ! j" using e1 by simp
      then show ?thesis using jj False by simp
    qed
  qed
  then show ?case using ih len1 b1 by simp
qed

lemma acts_updateElements:
  assumes "acts f g"
  shows "maps (updateElements sel f) (on sel g)"
  unfolding maps_def
proof (intro allI impI)
  fix d d' assume r: "updateElements sel f d = Returned d'"
  have b: "\<forall>j \<in> set (querySelectorAll sel d). j < length (elems d)"
    by (simp add: in_querySelectorAll)
  have r': "forEach (querySelectorAll sel d) f d = Returned d'"
    using r by (simp add: updateElements_def)
  note fa = forEach_acts [OF assms distinct_querySelectorAll b r']
  have "elems d' = map (on sel g) (elems d)"
  proof (rule nth_equalityI)
    show "length (elems d') = length (map (on sel g) (elems d))" using fa by simp
  next
    fix j assume "j < length (elems d')"
    then have j: "j < length (elems d)" using fa by simp
    then have "elems d' ! j = (if sel (elems d ! j) then g (elems d ! j) else elems d ! j)"
      using fa by (simp add: in_querySelectorAll)
    then show "elems d' ! j = map (on sel g) (elems d) ! j"
      using j by (simp add: on_def)
  qed
  then show "elems d' = map (on sel g) (elems d) \<and> body_classes d' = body_classes d"
    using fa by simp
qed


lemma maps_run_steps_Nil: "maps (run_steps []) id"
  by (simp add: maps_def)

lemma maps_run_steps_Cons:
  assumes "maps s G" and "maps (run_steps ss) H"
  shows "maps (run_steps (s # ss)) (H \<circ> G)"
  using assms by (auto simp: maps_def split: outcome.splits)


lemma total_forEach:
  "(\<And>i. total (f i)) \<Longrightarrow> total (forEach js f)"
proof (induction js)
  case Nil
  show ?case by (simp add: total_def)
next
  case (Cons j js)
  then have a: "total (f j)" and b: "total (forEach js f)" by auto
  show ?case unfolding total_def
  proof
    fix d
    from a obtain d1 where "f j d = Returned d1" by (auto simp: total_def)
    moreover from b obtain d2 where "forEach js f d1 = Returned d2" by (auto simp: total_def)
    ultimately show "\<exists>d'. forEach (j # js) f d = Returned d'" by simp
  qed
qed

lemma total_updateElements: "(\<And>i. total (f i)) \<Longrightarrow> total (updateElements sel f)"
  using total_forEach [of f] by (auto simp: total_def updateElements_def)

lemma total_run_steps: "(\<And>s. s \<in> set ss \<Longrightarrow> total s) \<Longrightarrow> total (run_steps ss)"
proof (induction ss)
  case Nil
  show ?case by (simp add: total_def)
next
  case (Cons s ss)
  then have a: "total s" and b: "total (run_steps ss)" by auto
  show ?case unfolding total_def
  proof
    fix d
    from a obtain d1 where "s d = Returned d1" by (auto simp: total_def)
    moreover from b obtain d2 where "run_steps ss d1 = Returned d2" by (auto simp: total_def)
    ultimately show "\<exists>d'. run_steps (s # ss) d = Returned d'" by simp
  qed
qed


subsection \<open>The callbacks, element by element\<close>

lemma set_simps [simp]:
  "elems (set_src i v d) = (elems d)[i := (elems d ! i)\<lparr>src := v\<rparr>]"
  "elems (set_style i p v d) = (elems d)[i := (elems d ! i)\<lparr>style := style_set p v (style (elems d ! i))\<rparr>]"
  "elems (set_originalStyle i v d) = (elems d)[i := (elems d ! i)\<lparr>originalStyle := Some v\<rparr>]"
  "elems (addEventListener i ev h d) = (elems d)[i := (elems d ! i)\<lparr>listeners := listeners (elems d ! i) @ [(ev, h)]\<rparr>]"
  "body_classes (set_src i v d) = body_classes d"
  "body_classes (set_style i p v d) = body_classes d"
  "body_classes (set_originalStyle i v d) = body_classes d"
  "body_classes (addEventListener i ev h d) = body_classes d"
  "mutations (set_src i v d) = mutations d @ [SrcWrite i v]"
  "mutations (set_style i p v d) = mutations d @ [StyleWrite i p v]"
  "mutations (set_originalStyle i v d) = mutations d @ [DatasetWrite i v]"
  "mutations (addEventListener i ev h d) = mutations d @ [ListenerAdded i ev h]"
  by (simp_all add: set_src_def set_style_def set_originalStyle_def addEventListener_def)

lemma acts_img: "acts (img_callback L D) (img_effect L D)"
  by (auto simp: acts_def img_callback_def img_effect_def Let_def split: if_splits)

lemma acts_updateStyle: "acts (\<lambda>i. updateStyle D i p lv dv) (updateStyle_effect D p lv dv)"
  by (auto simp: acts_def updateStyle_def updateStyle_effect_def Let_def split: if_splits)

lemma acts_svg: "acts (svg_callback D) (updateStyle_effect D ''background'' light_color dark_color)"
  using acts_updateStyle [of D "''background''"] by (simp add: svg_callback_def [abs_def])

lemma acts_rect: "acts (rect_callback D) (updateStyle_effect D ''fill'' light_color dark_color)"
  using acts_updateStyle [of D "''fill''"] by (simp add: rect_callback_def [abs_def])










lemma total_callbacks:
  "total (img_callback L D i)"
  "total (svg_callback D i)"
  "total (rect_callback D i)"
  "total (gt_callback D i)"
  "total (rt_rows_callback D i)"
  "total (rt_search_callback D i)"
  "total (rt_button_callback1 D i)"
  "total (rt_button_callback2 D i)"
  "total (rt_nav_callback D i)"
  "total (rt_current_callback D i)"
  "total (rt_sort_callback D i)"
  by (simp_all add: total_def img_callback_def svg_callback_def rect_callback_def updateStyle_def
        gt_callback_def rt_rows_callback_def rt_search_callback_def rt_button_callback1_def
        rt_button_callback2_def rt_nav_callback_def rt_current_callback_def rt_sort_callback_def
        Let_def)




subsection \<open>The steps as maps\<close>

lemma maps_cong: "maps s G \<Longrightarrow> G = H \<Longrightarrow> maps s H"
  by simp

lemma run_steps_append:
  "run_steps (ss @ ts) d =
     (case run_steps ss d of Returned d1 \<Rightarrow> run_steps ts d1 | Thrown e d1 \<Rightarrow> Thrown e d1)"
  by (induction ss arbitrary: d) (auto split: outcome.splits)






lemma static_effects [simp]:
  "tag (img_effect L D e) = tag e"
  "classes (img_effect L D e) = classes e"
  "ancestors (img_effect L D e) = ancestors e"
  "cascaded (img_effect L D e) = cascaded e"
  "tag (updateStyle_effect D p lv dv e) = tag e"
  "classes (updateStyle_effect D p lv dv e) = classes e"
  "ancestors (updateStyle_effect D p lv dv e) = ancestors e"
  "cascaded (updateStyle_effect D p lv dv e) = cascaded e"
  "tag (cache_effect J e) = tag e"
  "classes (cache_effect J e) = classes e"
  "ancestors (cache_effect J e) = ancestors e"
  "cascaded (cache_effect J e) = cascaded e"
  "tag (text_effect J c D e) = tag e"
  "classes (text_effect J c D e) = classes e"
  "ancestors (text_effect J c D e) = ancestors e"
  "cascaded (text_effect J c D e) = cascaded e"
  "tag (gt_effect D e) = tag e"
  "classes (gt_effect D e) = classes e"
  "ancestors (gt_effect D e) = ancestors e"
  "cascaded (gt_effect D e) = cascaded e"
  by (simp_all add: img_effect_def updateStyle_effect_def cache_effect_def text_effect_def
        gt_effect_def Let_def)

lemma static_rt_effects [simp]:
  "tag (rt_search_effect D e) = tag e"
  "classes (rt_search_effect D e) = classes e"
  "ancestors (rt_search_effect D e) = ancestors e"
  "cascaded (rt_search_effect D e) = cascaded e"
  "tag (rt_button_effect1 D e) = tag e"
  "classes (rt_button_effect1 D e) = classes e"
  "ancestors (rt_button_effect1 D e) = ancestors e"
  "cascaded (rt_button_effect1 D e) = cascaded e"
  "tag (rt_button_effect2 D e) = tag e"
  "classes (rt_button_effect2 D e) = classes e"
  "ancestors (rt_button_effect2 D e) = ancestors e"
  "cascaded (rt_button_effect2 D e) = cascaded e"
  "tag (rt_nav_effect D e) = tag e"
  "classes (rt_nav_effect D e) = classes e"
  "ancestors (rt_nav_effect D e) = ancestors e"
  "cascaded (rt_nav_effect D e) = cascaded e"
  "tag (rt_current_effect D e) = tag e"
  "classes (rt_current_effect D e) = classes e"
  "ancestors (rt_current_effect D e) = ancestors e"
  "cascaded (rt_current_effect D e) = cascaded e"
  "tag (rt_sort_effect D e) = tag e"
  "classes (rt_sort_effect D e) = classes e"
  "ancestors (rt_sort_effect D e) = ancestors e"
  "cascaded (rt_sort_effect D e) = cascaded e"
  by (simp_all add: rt_search_effect_def rt_button_effect1_def rt_button_effect2_def
        rt_nav_effect_def rt_current_effect_def rt_sort_effect_def)

lemma static_on:
  "tag (g e) = tag e \<Longrightarrow> tag (on sel g e) = tag e"
  "classes (g e) = classes e \<Longrightarrow> classes (on sel g e) = classes e"
  "ancestors (g e) = ancestors e \<Longrightarrow> ancestors (on sel g e) = ancestors e"
  "cascaded (g e) = cascaded e \<Longrightarrow> cascaded (on sel g e) = cascaded e"
  by (simp_all add: on_def)

lemma static_shared_effect [simp]:
  "tag (shared_effect J c L D e) = tag e"
  "classes (shared_effect J c L D e) = classes e"
  "ancestors (shared_effect J c L D e) = ancestors e"
  "cascaded (shared_effect J c L D e) = cascaded e"
  by (simp_all add: shared_effect_def static_on)

lemma static_reactable_effect [simp]:
  "tag (reactable_effect D e) = tag e"
  "classes (reactable_effect D e) = classes e"
  "ancestors (reactable_effect D e) = ancestors e"
  "cascaded (reactable_effect D e) = cascaded e"
  by (simp_all add: reactable_effect_def static_on)

lemma static_reactable_funpow [simp]:
  "tag ((reactable_effect D ^^ k) e) = tag e"
  "classes ((reactable_effect D ^^ k) e) = classes e"
  "ancestors ((reactable_effect D ^^ k) e) = ancestors e"
  "cascaded ((reactable_effect D ^^ k) e) = cascaded e"
  by (induction k) simp_all

lemma static_extended_effect [simp]:
  "tag (extended_effect J L D k e) = tag e"
  "classes (extended_effect J L D k e) = classes e"
  "ancestors (extended_effect J L D k e) = ancestors e"
  "cascaded (extended_effect J L D k e) = cascaded e"
  by (simp_all add: extended_effect_def)


lemma mode_unfold:
  "updateImageSrc J d =
     (if \<not> isLight d \<and> \<not> isDark d then Returned d
      else run_steps (extended_steps J (isLight d) (isDark d)) d)"
  "updateImageSrc_basic J d =
     (if \<not> isLight d \<and> \<not> isDark d then Returned d
      else run_steps (basic_steps J (isLight d) (isDark d)) d)"
  by (simp_all add: updateImageSrc_def updateImageSrc_basic_def isLight_def isDark_def Let_def)



subsection \<open>Writes at one index\<close>

lemma length_map_at [simp]: "length (map_at i g xs) = length xs"
  by (simp add: map_at_def)

lemma nth_map_at:
  "map_at i g xs ! j = (if j = i \<and> i < length xs then g (xs ! i) else xs ! j)"
  by (cases "i < length xs") (auto simp: map_at_def list_update_beyond)

lemma map_at_map_at [simp]: "map_at i g (map_at i f xs) = map_at i (\<lambda>e. g (f e)) xs"
  by (cases "i < length xs") (simp_all add: map_at_def list_update_beyond)

lemma map_map_at: "(\<And>e. f (g e) = f e) \<Longrightarrow> map f (map_at i g xs) = map f xs"
proof (cases "i < length xs")
  case True
  assume "\<And>e. f (g e) = f e"
  then have "map f (map_at i g xs) = (map f xs)[i := map f xs ! i]"
    using True by (simp add: map_at_def map_update)
  then show ?thesis by simp
next
  case False
  then show ?thesis by (simp add: map_at_def list_update_beyond)
qed

lemma elems_map_at:
  "elems (set_src i v d) = map_at i (\<lambda>e. e\<lparr>src := v\<rparr>) (elems d)"
  "elems (set_style i p v d) = map_at i (\<lambda>e. e\<lparr>style := style_set p v (style e)\<rparr>) (elems d)"
  "elems (set_originalStyle i v d) = map_at i (\<lambda>e. e\<lparr>originalStyle := Some v\<rparr>) (elems d)"
  "elems (addEventListener i ev h d) = map_at i (\<lambda>e. e\<lparr>listeners := listeners e @ [(ev, h)]\<rparr>) (elems d)"
  by (simp_all add: map_at_def)

lemma Object_assign_style_map_at:
  "elems (Object_assign_style i obj d) =
     map_at i (\<lambda>e. e\<lparr>style := assign_all obj (style e)\<rparr>) (elems d)"
proof (induction obj arbitrary: d)
  case Nil
  show ?case by (simp add: assign_all_def map_at_def)
next
  case (Cons kv obj)
  obtain k v where kv: "kv = (k, v)" by (cases kv)
  show ?case
    by (simp add: kv Cons.IH elems_map_at assign_all_def del: set_simps)
qed

lemma Object_assign_style_mutations:
  "mutations (Object_assign_style i obj d) = mutations d @ map (\<lambda>(k, v). StyleWrite i k v) obj"
  by (induction obj arbitrary: d) auto

lemma filter_StyleWrite [simp]:
  "filter is_SrcWrite (map (\<lambda>(k, v). StyleWrite i k v) obj) = []"
  by (induction obj) auto

lemmas callback_defs =
  svg_callback_def rect_callback_def updateStyle_def
  text_callback_def gt_callback_def rt_rows_callback_def rt_search_callback_def
  rt_button_callback1_def rt_button_callback2_def rt_nav_callback_def
  rt_current_callback_def rt_sort_callback_def Let_def

lemma src_kept_callbacks:
  "keeps (src_kept S W) (svg_callback D i)"
  "keeps (src_kept S W) (rect_callback D i)"
  "keeps (src_kept S W) (text_callback J c D i)"
  "keeps (src_kept S W) (gt_callback D i)"
  "keeps (src_kept S W) (rt_rows_callback D i)"
  "keeps (src_kept S W) (rt_search_callback D i)"
  "keeps (src_kept S W) (rt_button_callback1 D i)"
  "keeps (src_kept S W) (rt_button_callback2 D i)"
  "keeps (src_kept S W) (rt_nav_callback D i)"
  "keeps (src_kept S W) (rt_current_callback D i)"
  "keeps (src_kept S W) (rt_sort_callback D i)"
  by (auto simp: keeps_def src_kept_def callback_defs elems_map_at map_map_at
        Object_assign_style_mutations Object_assign_style_map_at
      simp del: set_simps(1-4)
      split: option.splits)


lemma src_kept_reactable: "keeps (src_kept S M) (reactable_callback D t)"
  unfolding reactable_callback_def
  by (rule keeps_run_steps)
     (auto simp: reactable_steps_def intro!: keeps_updateElements src_kept_callbacks)

lemma src_kept_later:
  "keeps (src_kept S M) (run_steps (tl (extended_steps J L D)))"
  by (rule keeps_run_steps)
     (auto simp: extended_steps_def intro!: keeps_updateElements src_kept_callbacks src_kept_reactable)

lemma img_forEach:
  assumes "distinct js" and "\<forall>j \<in> set js. j < length (elems d)"
  shows "\<exists>d1 ms. forEach js (img_callback L D) d = Returned d1 \<and>
           length (elems d1) = length (elems d) \<and>
           (\<forall>j < length (elems d). elems d1 ! j =
              (if j \<in> set js then img_effect L D (elems d ! j) else elems d ! j)) \<and>
           mutations d1 = mutations d @ ms \<and>
           (\<forall>j v. SrcWrite j v \<in> set ms \<longrightarrow> j \<in> set js \<and> v \<noteq> src (elems d ! j))"
  using assms
proof (induction js arbitrary: d)
  case Nil
  then show ?case by simp
next
  case (Cons i js)
  let ?new = "src (img_effect L D (elems d ! i))"
  define d0 where "d0 = (if ?new \<noteq> src (elems d ! i) then set_src i ?new d else d)"
  have i: "i < length (elems d)" and notin: "i \<notin> set js" and dist: "distinct js"
    using Cons.prems by simp_all
  have r0: "img_callback L D i d = Returned d0"
    by (simp add: img_callback_def d0_def img_effect_def Let_def)
  have e0: "elems d0 = (elems d)[i := img_effect L D (elems d ! i)]"
    by (simp add: d0_def img_effect_def)
  have m0: "\<exists>ms. mutations d0 = mutations d @ ms \<and>
              (\<forall>j v. SrcWrite j v \<in> set ms \<longrightarrow> j = i \<and> v \<noteq> src (elems d ! j))"
    by (auto simp: d0_def)
  then obtain ms0 where ms0: "mutations d0 = mutations d @ ms0"
    "\<forall>j v. SrcWrite j v \<in> set ms0 \<longrightarrow> j = i \<and> v \<noteq> src (elems d ! j)" by blast
  have bound: "\<forall>j \<in> set js. j < length (elems d0)" using Cons.prems(2) e0 by simp
  from Cons.IH [OF dist bound] obtain d1 ms1 where
    r1: "forEach js (img_callback L D) d0 = Returned d1"
    and l1: "length (elems d1) = length (elems d0)"
    and n1: "\<forall>j < length (elems d0). elems d1 ! j =
              (if j \<in> set js then img_effect L D (elems d0 ! j) else elems d0 ! j)"
    and m1: "mutations d1 = mutations d0 @ ms1"
    and w1: "\<forall>j v. SrcWrite j v \<in> set ms1 \<longrightarrow> j \<in> set js \<and> v \<noteq> src (elems d0 ! j)"
    by blast
  have same: "elems d0 ! j = elems d ! j" if "j \<noteq> i" for j using e0 that by simp
  have "elems d1 ! j = (if j \<in> set (i # js) then img_effect L D (elems d ! j) else elems d ! j)"
    if j: "j < length (elems d)" for j
  proof (cases "j = i")
    case True
    then show ?thesis using n1 e0 i notin by simp
  next
    case False
    then show ?thesis using n1 e0 j same by simp
  qed
  moreover have "\<forall>j v. SrcWrite j v \<in> set (ms0 @ ms1) \<longrightarrow>
                   j \<in> set (i # js) \<and> v \<noteq> src (elems d ! j)"
  proof (intro allI impI)
    fix j v assume "SrcWrite j v \<in> set (ms0 @ ms1)"
    then consider "SrcWrite j v \<in> set ms0" | "SrcWrite j v \<in> set ms1" by auto
    then show "j \<in> set (i # js) \<and> v \<noteq> src (elems d ! j)"
    proof cases
      case 1
      then show ?thesis using ms0(2) by simp
    next
      case 2
      then have a: "j \<in> set js" and b: "v \<noteq> src (elems d0 ! j)" using w1 by blast+
      from a notin have "j \<noteq> i" by auto
      then show ?thesis using a b same by simp
    qed
  qed
  ultimately show ?case using r0 r1 l1 e0 m1 ms0(1) by auto
qed

lemma img_step:
  "\<exists>d1 ms. updateElements sel_img (img_callback L D) d = Returned d1 \<and>
     elems d1 = map (on sel_img (img_effect L D)) (elems d) \<and>
     mutations d1 = mutations d @ ms \<and>
     (\<forall>j v. SrcWrite j v \<in> set ms \<longrightarrow> v \<noteq> src (elems d ! j))"
proof -
  have b: "\<forall>j \<in> set (querySelectorAll sel_img d). j < length (elems d)"
    by (simp add: in_querySelectorAll)
  from img_forEach [OF distinct_querySelectorAll b, of L D] obtain d1 ms where
    r: "forEach (querySelectorAll sel_img d) (img_callback L D) d = Returned d1"
    and l: "length (elems d1) = length (elems d)"
    and n: "\<forall>j < length (elems d). elems d1 ! j =
              (if j \<in> set (querySelectorAll sel_img d) then img_effect L D (elems d ! j)
               else elems d ! j)"
    and m: "mutations d1 = mutations d @ ms"
    and w: "\<forall>j v. SrcWrite j v \<in> set ms \<longrightarrow>
              j \<in> set (querySelectorAll sel_img d) \<and> v \<noteq> src (elems d ! j)"
    by blast
  have "elems d1 = map (on sel_img (img_effect L D)) (elems d)"
    using l n by (intro nth_equalityI) (simp_all add: in_querySelectorAll on_def)
  then show ?thesis using r m w by (auto simp: updateElements_def)
qed

text \<open>
  What an invocation with a theme class does to the sources: the image step rewrites
  them, and no later step touches a source or writes one.
\<close>

lemma extended_sources:
  assumes "isLight d \<or> isDark d"
  shows "\<exists>ms. map src (elems (state_of (updateImageSrc J d))) =
                 map (src \<circ> on sel_img (img_effect (isLight d) (isDark d))) (elems d) \<and>
               mutations (state_of (updateImageSrc J d)) = mutations d @ ms \<and>
               (\<forall>j v. SrcWrite j v \<in> set ms \<longrightarrow> v \<noteq> src (elems d ! j))"
proof -
  let ?L = "isLight d" and ?D = "isDark d"
  from img_step [of ?L ?D d] obtain d1 ms1 where
    r1: "updateElements sel_img (img_callback ?L ?D) d = Returned d1"
    and e1: "elems d1 = map (on sel_img (img_effect ?L ?D)) (elems d)"
    and m1: "mutations d1 = mutations d @ ms1"
    and w1: "\<forall>j v. SrcWrite j v \<in> set ms1 \<longrightarrow> v \<noteq> src (elems d ! j)"
    by blast
  have run: "updateImageSrc J d = run_steps (tl (extended_steps J ?L ?D)) d1"
    using assms r1 by (auto simp: mode_unfold extended_steps_def)
  have "src_kept (map src (elems d1)) (mutations d1) d1"
    by (simp add: src_kept_def)
  then have "src_kept (map src (elems d1)) (mutations d1) (state_of (updateImageSrc J d))"
    using src_kept_later [of "map src (elems d1)" "mutations d1" J ?L ?D]
    unfolding run keeps_def by blast
  then obtain ms2 where s: "map src (elems (state_of (updateImageSrc J d))) = map src (elems d1)"
    and m2: "mutations (state_of (updateImageSrc J d)) = mutations d1 @ ms2"
    and w2: "filter is_SrcWrite ms2 = []"
    unfolding src_kept_def by blast
  have "SrcWrite j v \<notin> set ms2" for j v
  proof
    assume "SrcWrite j v \<in> set ms2"
    then have "SrcWrite j v \<in> set (filter is_SrcWrite ms2)" by simp
    then show False using w2 by simp
  qed
  then have "\<forall>j v. SrcWrite j v \<in> set (ms1 @ ms2) \<longrightarrow> v \<noteq> src (elems d ! j)"
    using w1 by auto
  moreover have "mutations (state_of (updateImageSrc J d)) = mutations d @ (ms1 @ ms2)"
    using m1 m2 by simp
  ultimately show ?thesis using s e1 by (metis map_map)
qed

lemma total_pre_steps: "total (run_steps (pre_steps L D))"
  by (rule total_run_steps)
     (auto simp: pre_steps_def intro!: total_updateElements total_callbacks)

lemma maps_pre_steps: "maps (run_steps (pre_steps L D)) (pre_effect L D)"
  unfolding pre_steps_def
  apply (rule maps_cong)
   apply (rule maps_run_steps_Cons, rule acts_updateElements, rule acts_img)
   apply (rule maps_run_steps_Cons, rule acts_updateElements, rule acts_svg)
   apply (rule maps_run_steps_Cons, rule acts_updateElements, rule acts_rect)
   apply (rule maps_run_steps_Nil)
  apply (simp add: pre_effect_def fun_eq_iff)
  done

lemma pre_steps_run:
  obtains d3 where "run_steps (pre_steps L D) d = Returned d3"
    and "elems d3 = map (pre_effect L D) (elems d)"
    and "body_classes d3 = body_classes d"
proof -
  from total_pre_steps [of L D] obtain d3 where r: "run_steps (pre_steps L D) d = Returned d3"
    unfolding total_def by blast
  with maps_pre_steps [of L D] have "elems d3 = map (pre_effect L D) (elems d)"
    "body_classes d3 = body_classes d"
    unfolding maps_def by blast+
  with r that show ?thesis by blast
qed


lemma basic_steps_pre:
  "basic_steps J L D = pre_steps L D @ drop 3 (basic_steps J L D)"
  by (simp add: basic_steps_def pre_steps_def)


lemma basic_after_pre:
  assumes "isLight d \<or> isDark d"
    and "run_steps (pre_steps (isLight d) (isDark d)) d = Returned d3"
  shows "updateImageSrc_basic J d = run_steps (drop 3 (basic_steps J (isLight d) (isDark d))) d3"
proof -
  have "updateImageSrc_basic J d =
          run_steps (pre_steps (isLight d) (isDark d) @ drop 3 (basic_steps J (isLight d) (isDark d))) d"
    using assms(1) by (subst basic_steps_pre [symmetric]) (auto simp: mode_unfold)
  then show ?thesis using assms(2) by (simp add: run_steps_append)
qed

lemma static_pre_effect [simp]:
  "tag (pre_effect L D e) = tag e"
  "classes (pre_effect L D e) = classes e"
  "ancestors (pre_effect L D e) = ancestors e"
  "cascaded (pre_effect L D e) = cascaded e"
  by (simp_all add: pre_effect_def static_on)

subsection \<open>Background and fill\<close>




lemma text_callback_cases:
  obtains (thrown) "text_callback J c D j d = Thrown SyntaxError (cache_write J j d)"
  | (dark) "D" and
      "text_callback J c D j d =
         Returned (set_style j ''color'' c (set_style j ''fill'' ''white'' (cache_write J j d)))"
  | (light) obj where "\<not> D" and
      "text_callback J c D j d = Returned (Object_assign_style j obj (cache_write J j d))"
proof -
  let ?d1 = "cache_write J j d"
  have u: "text_callback J c D j d =
     (case originalStyle (elems ?d1 ! j) of
           None \<Rightarrow> Thrown SyntaxError ?d1
         | Some cached \<Rightarrow>
             (case JSON_parse J cached of
                None \<Rightarrow> Thrown SyntaxError ?d1
              | Some obj \<Rightarrow>
                  if D
                  then Returned (set_style j ''color'' c (set_style j ''fill'' ''white'' ?d1))
                  else Returned (Object_assign_style j obj ?d1)))"
    unfolding text_callback_def cache_write_def Let_def ..
  show ?thesis
  proof (cases "originalStyle (elems ?d1 ! j)")
    case None
    then show ?thesis using u thrown by simp
  next
    case (Some cached)
    show ?thesis
    proof (cases "JSON_parse J cached")
      case None
      then show ?thesis using u Some thrown by simp
    next
      case (Some obj)
      then show ?thesis using u \<open>originalStyle (elems ?d1 ! j) = Some cached\<close> dark light
        by (cases D) simp_all
    qed
  qed
qed








subsection \<open>The cached snapshot\<close>








lemma keeps_Returned: "keeps P Returned"
  by (simp add: keeps_def)



subsection \<open>Fields the effects leave alone\<close>

lemma sel_text_static:
  "tag e' = tag e \<Longrightarrow> classes e' = classes e \<Longrightarrow> ancestors e' = ancestors e \<Longrightarrow>
   sel_text e' = sel_text e"
  by (simp add: sel_text_def class_attr_def has_ancestor_def)

lemma pre_effect_text: "sel_text e \<Longrightarrow> pre_effect L D e = e"
  by (auto simp: pre_effect_def on_def sel_text_def sel_img_def sel_svg_background_def
        sel_rect_fill_def)



lemma originalStyle_effects [simp]:
  "originalStyle (img_effect L D e) = originalStyle e"
  "originalStyle (updateStyle_effect D p lv dv e) = originalStyle e"
  "originalStyle (gt_effect D e) = originalStyle e"
  "originalStyle (text_effect J c D e) = originalStyle (cache_effect J e)"
  "originalStyle (rt_search_effect D e) = originalStyle e"
  "originalStyle (rt_button_effect1 D e) = originalStyle e"
  "originalStyle (rt_button_effect2 D e) = originalStyle e"
  "originalStyle (rt_nav_effect D e) = originalStyle e"
  "originalStyle (rt_current_effect D e) = originalStyle e"
  "originalStyle (rt_sort_effect D e) = originalStyle e"
  by (simp_all add: img_effect_def updateStyle_effect_def gt_effect_def text_effect_def
        rt_search_effect_def rt_button_effect1_def rt_button_effect2_def rt_nav_effect_def
        rt_current_effect_def rt_sort_effect_def Let_def)

lemma src_effects [simp]:
  "src (updateStyle_effect D p lv dv e) = src e"
  "src (gt_effect D e) = src e"
  "src (cache_effect J e) = src e"
  "src (text_effect J c D e) = src e"
  "src (rt_search_effect D e) = src e"
  "src (rt_button_effect1 D e) = src e"
  "src (rt_button_effect2 D e) = src e"
  "src (rt_nav_effect D e) = src e"
  "src (rt_current_effect D e) = src e"
  "src (rt_sort_effect D e) = src e"
  by (simp_all add: updateStyle_effect_def gt_effect_def text_effect_def cache_effect_def
        rt_search_effect_def rt_button_effect1_def rt_button_effect2_def rt_nav_effect_def
        rt_current_effect_def rt_sort_effect_def Let_def)

lemma listeners_effects [simp]:
  "listeners (img_effect L D e) = listeners e"
  "listeners (updateStyle_effect D p lv dv e) = listeners e"
  "listeners (gt_effect D e) = listeners e"
  "listeners (cache_effect J e) = listeners e"
  "listeners (text_effect J c D e) = listeners e"
  "listeners (rt_search_effect D e) = listeners e"
  "listeners (rt_nav_effect D e) = listeners e"
  "listeners (rt_current_effect D e) = listeners e"
  "listeners (rt_sort_effect D e) = listeners e"
  by (simp_all add: img_effect_def updateStyle_effect_def gt_effect_def text_effect_def
        cache_effect_def rt_search_effect_def rt_nav_effect_def
        rt_current_effect_def rt_sort_effect_def Let_def)

lemma field_on:
  "originalStyle (g e) = originalStyle e \<Longrightarrow> originalStyle (on sel g e) = originalStyle e"
  "src (g e) = src e \<Longrightarrow> src (on sel g e) = src e"
  "listeners (g e) = listeners e \<Longrightarrow> listeners (on sel g e) = listeners e"
  "style (g e) = style e \<Longrightarrow> style (on sel g e) = style e"
  by (simp_all add: on_def)

lemma reactable_effect_fields [simp]:
  "originalStyle (reactable_effect D e) = originalStyle e"
  "src (reactable_effect D e) = src e"
  by (simp_all add: reactable_effect_def field_on static_on)

lemma reactable_funpow_fields [simp]:
  "originalStyle ((reactable_effect D ^^ k) e) = originalStyle e"
  "src ((reactable_effect D ^^ k) e) = src e"
  by (induction k) simp_all

lemmas run_defs =
  updateImageSrc_def updateImageSrc_basic_def extended_steps_def basic_steps_def
  reactable_callback_def reactable_steps_def updateElements_def querySelectorAll_def
  classList_contains_def isLight_def isDark_def
  sel_img_def sel_svg_background_def sel_rect_fill_def sel_text_def sel_gt_def
  sel_reactable_def sel_rt_rows_def sel_rt_search_def sel_rt_pagination_button_def
  sel_rt_pagination_nav_button_def sel_rt_page_button_current_def sel_rt_sort_header_def
  has_class_def has_ancestor_def class_attr_def style_text_def
  img_callback_def svg_callback_def rect_callback_def updateStyle_def text_callback_def
  gt_callback_def rt_rows_callback_def rt_search_callback_def rt_button_callback1_def
  rt_button_callback2_def rt_nav_callback_def rt_current_callback_def rt_sort_callback_def
  falsy_def snapshot_def getComputedStyle_def style_get_def style_set_def
  css_name.simps upper_lower_def light_color_def dark_color_def
  basic_darkText_def extended_darkText_def
  flat_json_def flat_stringify_def flat_parse_def json_quote_def
  set_src_def set_style_def set_originalStyle_def addEventListener_def modify_def Let_def


subsection \<open>When the routine returns\<close>

lemma returns_iff: "returns r \<longleftrightarrow> (\<exists>d. r = Returned d)"
  by (cases r) auto



lemma total_returns: "total s \<longleftrightarrow> (\<forall>d. returns (s d))"
  by (simp add: total_def returns_iff)

lemma returns_run_steps_Cons:
  "returns (run_steps (s # ss) d) \<longleftrightarrow> returns (s d) \<and> returns (run_steps ss (state_of (s d)))"
  by (cases "s d") auto

lemma returns_run_steps_append:
  "returns (run_steps (ss @ ts) d) \<longleftrightarrow>
     returns (run_steps ss d) \<and> returns (run_steps ts (state_of (run_steps ss d)))"
  by (cases "run_steps ss d") (auto simp: run_steps_append)

lemma cache_write_elems:
  "i < length (elems d) \<Longrightarrow> elems (cache_write J i d) = (elems d)[i := cache_effect J (elems d ! i)]"
  by (simp add: cache_write_def cache_effect_def)

lemma text_callback_returns:
  assumes "i < length (elems d)"
  shows "returns (text_callback J c D i d) \<longleftrightarrow> decodable J (elems d ! i)"
proof -
  let ?d1 = "cache_write J i d"
  have n: "elems ?d1 ! i = cache_effect J (elems d ! i)"
    using assms by (simp add: cache_write_elems)
  have u: "text_callback J c D i d =
     (case originalStyle (elems ?d1 ! i) of
           None \<Rightarrow> Thrown SyntaxError ?d1
         | Some cached \<Rightarrow>
             (case JSON_parse J cached of
                None \<Rightarrow> Thrown SyntaxError ?d1
              | Some obj \<Rightarrow>
                  if D
                  then Returned (set_style i ''color'' c (set_style i ''fill'' ''white'' ?d1))
                  else Returned (Object_assign_style i obj ?d1)))"
    unfolding text_callback_def cache_write_def Let_def ..
  show ?thesis
    unfolding u n decodable_def
    by (auto split: option.splits)
qed

lemma text_callback_frame:
  "length (elems (state_of (text_callback J c D i d))) = length (elems d)"
  "j \<noteq> i \<Longrightarrow> elems (state_of (text_callback J c D i d)) ! j = elems d ! j"
  by (cases rule: text_callback_cases [of J c D i d];
      simp add: cache_write_def elems_map_at Object_assign_style_map_at nth_map_at
        del: set_simps(1-4))+

lemma text_forEach_returns:
  assumes "distinct js" and "\<forall>j \<in> set js. j < length (elems d)"
  shows "returns (forEach js (text_callback J c D) d) \<longleftrightarrow>
           (\<forall>j \<in> set js. decodable J (elems d ! j))"
  using assms
proof (induction js arbitrary: d)
  case Nil
  show ?case by simp
next
  case (Cons i js)
  let ?d1 = "state_of (text_callback J c D i d)"
  have i: "i < length (elems d)" and notin: "i \<notin> set js" and dist: "distinct js"
    using Cons.prems by simp_all
  have bound: "\<forall>j \<in> set js. j < length (elems ?d1)"
    using Cons.prems(2) by (simp add: text_callback_frame)
  have same: "\<forall>j \<in> set js. elems ?d1 ! j = elems d ! j"
  proof
    fix j assume "j \<in> set js"
    then have "j \<noteq> i" using notin by auto
    then show "elems ?d1 ! j = elems d ! j" by (rule text_callback_frame(2))
  qed
  have "returns (forEach (i # js) (text_callback J c D) d) \<longleftrightarrow>
          returns (text_callback J c D i d) \<and> returns (forEach js (text_callback J c D) ?d1)"
    by (cases "text_callback J c D i d") auto
  also have "\<dots> \<longleftrightarrow> decodable J (elems d ! i) \<and> (\<forall>j \<in> set js. decodable J (elems ?d1 ! j))"
    using text_callback_returns [OF i] Cons.IH [OF dist bound] by simp
  also have "\<dots> \<longleftrightarrow> (\<forall>j \<in> set (i # js). decodable J (elems d ! j))"
    using same by simp
  finally show ?case .
qed

lemma text_step_returns:
  "returns (updateElements sel_text (text_callback J c D) d) \<longleftrightarrow> text_ok J d"
proof -
  have "returns (updateElements sel_text (text_callback J c D) d) \<longleftrightarrow>
          (\<forall>j \<in> set (querySelectorAll sel_text d). decodable J (elems d ! j))"
    unfolding updateElements_def
    by (rule text_forEach_returns [OF distinct_querySelectorAll]) (simp add: in_querySelectorAll)
  also have "\<dots> \<longleftrightarrow> (\<forall>j < length (elems d). sel_text (elems d ! j) \<longrightarrow> decodable J (elems d ! j))"
    by (auto simp: in_querySelectorAll)
  also have "\<dots> \<longleftrightarrow> text_ok J d"
    by (simp add: text_ok_def all_set_conv_all_nth)
  finally show ?thesis .
qed

lemma text_ok_pre:
  assumes "elems d3 = map (pre_effect L D) (elems d)"
  shows "text_ok J d3 \<longleftrightarrow> text_ok J d"
proof -
  have "sel_text (pre_effect L D e) = sel_text e" for e
    by (rule sel_text_static) simp_all
  moreover have "sel_text e \<Longrightarrow> decodable J (pre_effect L D e) = decodable J e" for e
    by (simp add: pre_effect_text)
  ultimately show ?thesis using assms by (auto simp: text_ok_def)
qed


lemma total_gt_step: "total (updateElements sel_gt (gt_callback D))"
  by (rule total_updateElements) (rule total_callbacks)



lemma basic_returns_iff:
  assumes "isLight d \<or> isDark d"
  shows "returns (updateImageSrc_basic J d) \<longleftrightarrow> text_ok J d"
proof -
  let ?L = "isLight d" and ?D = "isDark d"
  obtain d3 where r: "run_steps (pre_steps ?L ?D) d = Returned d3"
    and e3: "elems d3 = map (pre_effect ?L ?D) (elems d)"
    by (rule pre_steps_run)
  have "returns (updateImageSrc_basic J d) \<longleftrightarrow>
          returns (run_steps (drop 3 (basic_steps J ?L ?D)) d3)"
    using basic_after_pre [OF assms r] by simp
  also have "\<dots> \<longleftrightarrow> returns (updateElements sel_text (text_callback J basic_darkText ?D) d3)"
    using total_gt_step [of ?D]
    by (simp add: basic_steps_def returns_run_steps_Cons total_returns del: run_steps.simps(2))
  also have "\<dots> \<longleftrightarrow> text_ok J d"
    by (simp add: text_step_returns text_ok_pre [OF e3])
  finally show ?thesis .
qed

subsection \<open>Nothing but the image step reads a source\<close>

lemma sel_src [simp]:
  "sel_img (e\<lparr>src := s\<rparr>) = sel_img e"
  "sel_svg_background (e\<lparr>src := s\<rparr>) = sel_svg_background e"
  "sel_rect_fill (e\<lparr>src := s\<rparr>) = sel_rect_fill e"
  "sel_text (e\<lparr>src := s\<rparr>) = sel_text e"
  "sel_gt (e\<lparr>src := s\<rparr>) = sel_gt e"
  "sel_reactable (e\<lparr>src := s\<rparr>) = sel_reactable e"
  "sel_rt_rows (e\<lparr>src := s\<rparr>) = sel_rt_rows e"
  "sel_rt_search (e\<lparr>src := s\<rparr>) = sel_rt_search e"
  "sel_rt_pagination_button (e\<lparr>src := s\<rparr>) = sel_rt_pagination_button e"
  "sel_rt_pagination_nav_button (e\<lparr>src := s\<rparr>) = sel_rt_pagination_nav_button e"
  "sel_rt_page_button_current (e\<lparr>src := s\<rparr>) = sel_rt_page_button_current e"
  "sel_rt_sort_header (e\<lparr>src := s\<rparr>) = sel_rt_sort_header e"
  by (simp_all add: sel_img_def sel_svg_background_def sel_rect_fill_def sel_text_def sel_gt_def
        sel_reactable_def sel_rt_rows_def sel_rt_search_def sel_rt_pagination_button_def
        sel_rt_pagination_nav_button_def sel_rt_page_button_current_def sel_rt_sort_header_def
        has_class_def has_ancestor_def class_attr_def)

lemma snapshot_src [simp]: "snapshot (e\<lparr>src := s\<rparr>) = snapshot e"
  by (simp add: snapshot_def getComputedStyle_def cong: option.case_cong)








subsection \<open>The flat codec reads back what it writes\<close>

lemma scan_key:
  "flat_scan (InKey k) acc (json_escape s @ CHR 0x22 # rest) = flat_scan (Colon (rev k @ s)) acc rest"
  by (induction s arbitrary: k) simp_all

lemma scan_val:
  "flat_scan (InVal k v) acc (json_escape s @ CHR 0x22 # rest) =
     flat_scan CommaOrClose ((k, rev v @ s) # acc) rest"
  by (induction s arbitrary: v) simp_all

lemma scan_member:
  "flat_scan (InKey []) acc (json_escape k @ CHR 0x22 # CHR '':'' # json_quote v @ rest) =
     flat_scan CommaOrClose ((k, v) # acc) rest"
proof -
  have "flat_scan (InKey []) acc (json_escape k @ CHR 0x22 # CHR '':'' # json_quote v @ rest) =
          flat_scan (Colon k) acc (CHR '':'' # json_quote v @ rest)"
    using scan_key [of "[]" acc k] by simp
  also have "\<dots> = flat_scan (InVal k []) acc (json_escape v @ CHR 0x22 # rest)"
    by (simp add: json_quote_def)
  also have "\<dots> = flat_scan CommaOrClose ((k, v) # acc) rest"
    using scan_val [of k "[]" acc v] by simp
  finally show ?thesis .
qed

lemma member_text_Cons:
  "member_text (k, v) @ rest = CHR 0x22 # json_escape k @ CHR 0x22 # CHR '':'' # json_quote v @ rest"
  by (simp add: member_text_def json_quote_def)

lemma join_with_members:
  "join_with sep (x # xs) = x @ concat (map (\<lambda>y. sep @ y) xs)"
  by (induction xs arbitrary: x) simp_all

lemma scan_rest:
  "flat_scan CommaOrClose acc (concat (map (\<lambda>y. CHR '','' # y) (map member_text ms)) @ ''}'') =
     Some (rev acc @ ms)"
proof (induction ms arbitrary: acc)
  case Nil
  show ?case by simp
next
  case (Cons m ms)
  obtain k v where m: "m = (k, v)" by (cases m)
  define rest where "rest = concat (map (\<lambda>y. CHR '','' # y) (map member_text ms)) @ ''}''"
  have "concat (map (\<lambda>y. CHR '','' # y) (map member_text (m # ms))) @ ''}'' =
          CHR '','' # member_text (k, v) @ rest"
    by (simp add: m rest_def)
  then have "flat_scan CommaOrClose acc
          (concat (map (\<lambda>y. CHR '','' # y) (map member_text (m # ms))) @ ''}'') =
        flat_scan Key acc (member_text (k, v) @ rest)"
    by simp
  also have "\<dots> = flat_scan (InKey []) acc
                      (json_escape k @ CHR 0x22 # CHR '':'' # json_quote v @ rest)"
    by (simp add: member_text_Cons)
  also have "\<dots> = flat_scan CommaOrClose ((k, v) # acc) rest"
    by (rule scan_member)
  also have "\<dots> = Some (rev ((k, v) # acc) @ ms)"
    unfolding rest_def by (rule Cons.IH)
  finally show ?case by (simp add: m)
qed

lemma flat_roundtrip: "flat_parse (flat_stringify obj) = Some obj"
proof (cases obj)
  case Nil
  then show ?thesis by (simp add: flat_parse_def flat_stringify_def)
next
  case (Cons m ms)
  obtain k v where m: "m = (k, v)" by (cases m)
  define rest where "rest = concat (map (\<lambda>y. CHR '','' # y) (map member_text ms)) @ ''}''"
  have mt: "(\<lambda>(k, v). json_quote k @ '':'' @ json_quote v) = member_text"
    by (simp add: fun_eq_iff member_text_def)
  have "flat_stringify obj = CHR ''{'' # member_text (k, v) @ rest"
    unfolding flat_stringify_def mt Cons m rest_def by (simp add: join_with_members)
  then have "flat_parse (flat_stringify obj) =
               flat_scan KeyOrClose [] (member_text (k, v) @ rest)"
    by (simp add: flat_parse_def)
  also have "\<dots> = flat_scan (InKey []) []
                      (json_escape k @ CHR 0x22 # CHR '':'' # json_quote v @ rest)"
    by (simp add: member_text_Cons)
  also have "\<dots> = flat_scan CommaOrClose [(k, v)] rest"
    by (rule scan_member)
  also have "\<dots> = Some (rev [(k, v)] @ ms)"
    unfolding rest_def by (rule scan_rest)
  finally show ?thesis by (simp add: Cons m)
qed

lemma flat_stringify_nonempty: "flat_stringify obj \<noteq> []"
  by (simp add: flat_stringify_def)

lemma flat_json_law [simp]:
  "JSON_parse flat_json (JSON_stringify flat_json obj) = Some obj"
  "JSON_stringify flat_json obj \<noteq> []"
  by (simp_all add: flat_json_def flat_roundtrip flat_stringify_nonempty)




text \<open>
  Claim C3. When the body carries neither \<^verbatim>\<open>quarto-light\<close> nor \<^verbatim>\<open>quarto-dark\<close>, an
  invocation returns at once and leaves the whole document as it was: every image
  source, every inline style, every snapshot record (and the record of writes), in
  both versions of the script.
\<close>

theorem C3_no_theme_no_mutation:
  assumes "\<not> classList_contains (body_classes d) ''quarto-light''"
    and "\<not> classList_contains (body_classes d) ''quarto-dark''"
  shows "updateImageSrc J d = Returned d \<and> updateImageSrc_basic J d = Returned d"
  using assms by (simp add: updateImageSrc_def updateImageSrc_basic_def)

theorem C3_no_theme_no_mutation_witness:
  "\<not> classList_contains (body_classes unthemed_page) ''quarto-light'' \<and>
   \<not> classList_contains (body_classes unthemed_page) ''quarto-dark'' \<and>
   updateImageSrc flat_json unthemed_page = Returned unthemed_page \<and>
   updateImageSrc_basic flat_json unthemed_page = Returned unthemed_page"
proof -
  have a: "\<not> classList_contains (body_classes unthemed_page) ''quarto-light''"
    and b: "\<not> classList_contains (body_classes unthemed_page) ''quarto-dark''"
    by (simp_all add: unthemed_page_def classList_contains_def)
  show ?thesis using a b C3_no_theme_no_mutation [OF a b, of flat_json] by simp
qed

text \<open>
  Claim C4. For every \<^verbatim>\<open>img\<close> element. With dark mode active (the body has
  \<^verbatim>\<open>quarto-dark\<close> and not \<^verbatim>\<open>quarto-light\<close>), a source that contains the marker
  \<^verbatim>\<open>.light\<close> comes out with that marker, its first occurrence, replaced by
  \<^verbatim>\<open>.dark\<close>; with light mode active (\<^verbatim>\<open>quarto-light\<close> and not \<^verbatim>\<open>quarto-dark\<close>),
  \<^verbatim>\<open>.dark\<close> becomes \<^verbatim>\<open>.light\<close> in the same way. A source with neither marker is
  left as it is. Every source write the invocation records for the element carries a
  value different from the source it found, which is the element's new source: no write
  is made when the rewritten URL equals the current one. In particular, on a dark page
  \<^verbatim>\<open>chart.light.png\<close> becomes \<^verbatim>\<open>chart.dark.png\<close>. All of this holds for the document
  the invocation leaves behind, whether it returns or throws in a later step.
\<close>

theorem C4_image_source_rewrite:
  assumes "i < length (elems d)" and "tag (elems d ! i) = ''img''"
  shows "(isDark d \<and> \<not> isLight d \<and> src (elems d ! i) = pre @ ''.light'' @ post
            \<and> \<not> str_includes pre ''.light''
          \<longrightarrow> src (elems (state_of (updateImageSrc J d)) ! i) = pre @ ''.dark'' @ post)
       \<and> (isLight d \<and> \<not> isDark d \<and> src (elems d ! i) = pre @ ''.dark'' @ post
            \<and> \<not> str_includes pre ''.dark''
          \<longrightarrow> src (elems (state_of (updateImageSrc J d)) ! i) = pre @ ''.light'' @ post)
       \<and> (\<not> str_includes (src (elems d ! i)) ''.light''
            \<and> \<not> str_includes (src (elems d ! i)) ''.dark''
          \<longrightarrow> src (elems (state_of (updateImageSrc J d)) ! i) = src (elems d ! i))
       \<and> (\<forall>v. SrcWrite i v \<in> set (new_mutations d (state_of (updateImageSrc J d)))
          \<longrightarrow> v \<noteq> src (elems d ! i))
       \<and> (isDark d \<and> \<not> isLight d \<and> src (elems d ! i) = ''chart.light.png''
          \<longrightarrow> src (elems (state_of (updateImageSrc J d)) ! i) = ''chart.dark.png'')"
proof (cases "isLight d \<or> isDark d")
  case False
  then have "updateImageSrc J d = Returned d" by (simp add: mode_unfold)
  then show ?thesis using False by (simp add: new_mutations_def)
next
  case True
  let ?d' = "state_of (updateImageSrc J d)"
  from extended_sources [OF True, of J] obtain ms where
    s: "map src (elems ?d') = map (src \<circ> on sel_img (img_effect (isLight d) (isDark d))) (elems d)"
    and m: "mutations ?d' = mutations d @ ms"
    and w: "\<forall>j v. SrcWrite j v \<in> set ms \<longrightarrow> v \<noteq> src (elems d ! j)"
    by blast
  from s have len: "length (elems ?d') = length (elems d)" by (metis length_map)
  have "src (elems ?d' ! i) = map src (elems ?d') ! i"
    using len assms(1) by simp
  also have "\<dots> = src (on sel_img (img_effect (isLight d) (isDark d)) (elems d ! i))"
    unfolding s using assms(1) by simp
  finally have "src (elems ?d' ! i) = src (img_effect (isLight d) (isDark d) (elems d ! i))"
    using assms(2) by (simp add: on_def sel_img_def)
  then have new: "src (elems ?d' ! i) =
      str_replace (src (elems d ! i)) (if isLight d then ''.dark'' else ''.light'')
        (if isDark d then ''.dark'' else ''.light'')"
    by (simp add: img_effect_def)
  have 1: "src (elems ?d' ! i) = pre @ ''.dark'' @ post"
    if "isDark d" "\<not> isLight d" "src (elems d ! i) = pre @ ''.light'' @ post"
       "\<not> str_includes pre ''.light''"
    using that new str_replace_light [of pre post "''.dark''"] by simp
  have 2: "src (elems ?d' ! i) = pre @ ''.light'' @ post"
    if "isLight d" "\<not> isDark d" "src (elems d ! i) = pre @ ''.dark'' @ post"
       "\<not> str_includes pre ''.dark''"
    using that new str_replace_dark [of pre post "''.light''"] by simp
  have 3: "src (elems ?d' ! i) = src (elems d ! i)"
    if "\<not> str_includes (src (elems d ! i)) ''.light''"
       "\<not> str_includes (src (elems d ! i)) ''.dark''"
    using that new by (simp add: str_replace_absent)
  have 4: "\<forall>v. SrcWrite i v \<in> set (new_mutations d ?d') \<longrightarrow> v \<noteq> src (elems d ! i)"
    using m w by (simp add: new_mutations_def)
  have 5: "src (elems ?d' ! i) = ''chart.dark.png''"
    if "isDark d" "\<not> isLight d" "src (elems d ! i) = ''chart.light.png''"
    using that new by simp
  show ?thesis using 1 2 3 4 5 by blast
qed

theorem C4_image_source_rewrite_witness:
  "0 < length (elems dark_chart_page) \<and> tag (elems dark_chart_page ! 0) = ''img'' \<and>
   isDark dark_chart_page \<and> \<not> isLight dark_chart_page \<and>
   src (elems dark_chart_page ! 0) = ''chart'' @ ''.light'' @ ''.png'' \<and>
   \<not> str_includes ''chart'' ''.light'' \<and>
   src (elems (state_of (updateImageSrc flat_json dark_chart_page)) ! 0) = ''chart.dark.png'' \<and>
   0 < length (elems light_chart_page) \<and> tag (elems light_chart_page ! 0) = ''img'' \<and>
   isLight light_chart_page \<and> \<not> isDark light_chart_page \<and>
   src (elems light_chart_page ! 0) = ''chart'' @ ''.dark'' @ ''.png'' \<and>
   \<not> str_includes ''chart'' ''.dark'' \<and>
   src (elems (state_of (updateImageSrc flat_json light_chart_page)) ! 0) = ''chart.light.png''"
proof -
  have a: "0 < length (elems dark_chart_page)" "tag (elems dark_chart_page ! 0) = ''img''"
    and b: "0 < length (elems light_chart_page)" "tag (elems light_chart_page ! 0) = ''img''"
    by (simp_all add: dark_chart_page_def light_chart_page_def chart_img_def plain_element_def)
  have c: "isDark dark_chart_page" "\<not> isLight dark_chart_page"
    "src (elems dark_chart_page ! 0) = ''chart'' @ ''.light'' @ ''.png''"
    "\<not> str_includes ''chart'' ''.light''"
    "isLight light_chart_page" "\<not> isDark light_chart_page"
    "src (elems light_chart_page ! 0) = ''chart'' @ ''.dark'' @ ''.png''"
    "\<not> str_includes ''chart'' ''.dark''"
    by (simp_all add: dark_chart_page_def light_chart_page_def chart_img_def plain_element_def
          isDark_def isLight_def classList_contains_def)
  from c C4_image_source_rewrite [OF a, of "''chart''" "''.png''" flat_json]
  have "src (elems (state_of (updateImageSrc flat_json dark_chart_page)) ! 0) =
          ''chart'' @ ''.dark'' @ ''.png''"
    by blast
  then have d: "src (elems (state_of (updateImageSrc flat_json dark_chart_page)) ! 0) =
          ''chart.dark.png''"
    by simp
  from c C4_image_source_rewrite [OF b, of "''chart''" "''.png''" flat_json]
  have "src (elems (state_of (updateImageSrc flat_json light_chart_page)) ! 0) =
          ''chart'' @ ''.light'' @ ''.png''"
    by blast
  then have e: "src (elems (state_of (updateImageSrc flat_json light_chart_page)) ! 0) =
          ''chart.light.png''"
    by simp
  from a b c d e show ?thesis by blast
qed



lemma updateStyle_effect_other:
  "css_name q \<noteq> css_name p \<Longrightarrow>
   style_get q (style (updateStyle_effect D p lv dv e)) = style_get q (style e)"
  by (simp add: updateStyle_effect_def Let_def style_get_set)

















end
